theory Spec2Isabelle
  imports Main
begin

section \<open>JavaScript values and errors\<close>

text \<open>
  The bot is one JavaScript file, \<^verbatim>\<open>src/index.js\<close>. Values that travel through the
  cache and come back from the remote API are JSON values; \<open>JUndefined\<close> is what a
  property read of a missing field gives. Numbers are modelled as integers and
  \<^verbatim>\<open>Date.now()\<close> as an integer count of milliseconds.
\<close>

datatype jsval =
    JUndefined
  | JNull
  | JBool bool
  | JNum int
  | JStr string
  | JArr "jsval list"
  | JObj "(string \<times> jsval) list"

text \<open>
  Every \<^verbatim>\<open>throw\<close> and every rejected promise of the source is a value of this type.
  \<open>RiotIdFormatHint\<close> and \<open>RiotIdFormat\<close> are the two messages of \<^verbatim>\<open>parseRiotId\<close>,
  \<open>RiotHttp status body\<close> is \<^verbatim>\<open>Error(`Riot ${res.status}: ${body}`)\<close>, \<open>FetchFailed\<close> a
  rejected \<^verbatim>\<open>fetch\<close>, \<open>JsonSyntax\<close> a rejected \<^verbatim>\<open>res.json()\<close>, \<open>TypeError\<close> the
  engine's own error for a property read of \<^verbatim>\<open>undefined\<close>/\<^verbatim>\<open>null\<close> or a call of a
  non-function.
\<close>

datatype error =
    RiotIdFormatHint
  | RiotIdFormat
  | RiotHttp nat string
  | FetchFailed
  | JsonSyntax
  | TypeError
  | InteractionAlreadyReplied
  | InteractionNotReplied

section \<open>TTLCache\<close>

text \<open>
  \<^verbatim>\<open>
  class TTLCache {
    constructor() { this.map = new Map(); }
    get(key) {
      const v = this.map.get(key);
      if (!v) return null;
      if (Date.now() > v.expires) { this.map.delete(key); return null; }
      return v.value;
    }
    set(key, value, ttlMs = 60_000) { this.map.set(key, { value, expires: Date.now() + ttlMs }); }
  }
  \<close>
  The map is passed in and returned; the clock reading is the first argument. A stored
  entry is an object, hence truthy, so \<^verbatim>\<open>!v\<close> is exactly "no entry". The optional
  third argument of \<^verbatim>\<open>set\<close> is \<open>None\<close> when the caller leaves it out.
\<close>

record entry =
  e_value :: jsval
  e_expires :: int

type_synonym TTLCache = "string \<rightharpoonup> entry"

definition cache_get :: "int \<Rightarrow> string \<Rightarrow> TTLCache \<Rightarrow> jsval \<times> TTLCache" where
  "cache_get now key m =
     (case m key of
        None \<Rightarrow> (JNull, m)
      | Some v \<Rightarrow> if now > e_expires v then (JNull, m(key := None)) else (e_value v, m))"

definition cache_set :: "int \<Rightarrow> string \<Rightarrow> jsval \<Rightarrow> int option \<Rightarrow> TTLCache \<Rightarrow> TTLCache" where
  "cache_set now key v ttlMs m =
     m(key \<mapsto> \<lparr>e_value = v, e_expires = now + (case ttlMs of None \<Rightarrow> 60000 | Some t \<Rightarrow> t)\<rparr>)"

section \<open>Rate gate\<close>

text \<open>
  \<^verbatim>\<open>
  const RATE_LIMIT = { capacity: 20, refillMs: 10_000 };
  let tokens = RATE_LIMIT.capacity; let lastRefill = Date.now();
  async function takeToken() {
    const now = Date.now();
    const delta = now - lastRefill;
    if (delta > RATE_LIMIT.refillMs) {
      tokens = RATE_LIMIT.capacity; lastRefill = now;
    }
    if (tokens <= 0) { await new Promise(r => setTimeout(r, 500)); return takeToken(); }
    tokens -= 1;
  }
  \<close>
  The two module variables are the record \<open>gate\<close>. Between reading the clock and
  either decrementing or starting the timer there is no \<^verbatim>\<open>await\<close>, so one pass through
  the body is one atomic step, \<open>attempt\<close>: it says whether the token was taken. A timer
  of 500 ms fires no earlier than 500 ms later; \<open>lag t\<close> is by how much the timer that
  was started at \<open>t\<close> is late. \<open>takeToken\<close> is the call of one caller with nobody else
  touching the gate meanwhile; it returns the instant at which the token was taken, the
  number of times the caller was suspended, and the gate.
\<close>

definition capacity :: int where
  "capacity = 20"

definition refillMs :: int where
  "refillMs = 10000"

record gate =
  tokens :: int
  lastRefill :: int

definition refill :: "int \<Rightarrow> gate \<Rightarrow> gate" where
  "refill now g =
     (if now - lastRefill g > refillMs then \<lparr>tokens = capacity, lastRefill = now\<rparr> else g)"

definition attempt :: "int \<Rightarrow> gate \<Rightarrow> bool \<times> gate" where
  "attempt now g =
     (let g' = refill now g
      in if tokens g' \<le> 0 then (False, g') else (True, g'\<lparr>tokens := tokens g' - 1\<rparr>))"

function takeToken :: "(int \<Rightarrow> nat) \<Rightarrow> int \<Rightarrow> gate \<Rightarrow> int \<times> nat \<times> gate" where
  "takeToken lag now g =
     (if fst (attempt now g) then (now, 0, snd (attempt now g))
      else (case takeToken lag (now + 500 + int (lag now)) (snd (attempt now g)) of
              (fin, n, g') \<Rightarrow> (fin, Suc n, g')))"
  by pat_completeness auto
termination
proof (relation "measure (\<lambda>(lag, now, g).
         if tokens g \<le> 0 \<and> now - lastRefill g \<le> refillMs
         then nat (lastRefill g + refillMs - now) + 1 else 0)")
  show "wf (measure (\<lambda>(lag, now, g).
         if tokens g \<le> 0 \<and> now - lastRefill g \<le> refillMs
         then nat (lastRefill g + refillMs - now) + 1 else 0))"
    by simp
next
  fix lag :: "int \<Rightarrow> nat" and now :: int and g :: gate
  assume "\<not> fst (attempt now g)"
  then have "tokens g \<le> 0" and "now - lastRefill g \<le> refillMs" and "snd (attempt now g) = g"
    by (auto simp: attempt_def refill_def capacity_def Let_def split: if_splits)
  then show "((lag, now + 500 + int (lag now), snd (attempt now g)), (lag, now, g))
      \<in> measure (\<lambda>(lag, now, g).
         if tokens g \<le> 0 \<and> now - lastRefill g \<le> refillMs
         then nat (lastRefill g + refillMs - now) + 1 else 0)"
    by auto
qed

declare takeToken.simps [simp del]

text \<open>
  Any number of callers, each possibly suspended and retrying: what the gate sees is a
  sequence of passes through the body, at the instants \<open>ts\<close>.
\<close>

fun attempts :: "int list \<Rightarrow> gate \<Rightarrow> bool list \<times> gate" where
  "attempts [] g = ([], g)"
| "attempts (t # ts) g =
     (case attempt t g of (r, g') \<Rightarrow>
        (case attempts ts g' of (rs, g'') \<Rightarrow> (r # rs, g'')))"

section \<open>Riot identifiers\<close>

text \<open>
  \<^verbatim>\<open>
  function parseRiotId(input) {
    const idx = input.lastIndexOf('#');
    if (idx === -1) throw new Error('Niepoprawny format Riot ID. ...');
    const gameName = input.slice(0, idx).trim();
    const tagLine = input.slice(idx + 1).trim();
    if (!gameName || !tagLine) throw new Error('Niepoprawny format Riot ID.');
    return { gameName, tagLine };
  }
  \<close>
  A string is the list of the bytes of its UTF-8 encoding; \<open>#\<close> is one byte there and no
  part of a longer character. \<open>slice\<close> is JavaScript's \<^verbatim>\<open>slice(start, end)\<close> of strings
  and arrays: a negative index counts from the end, and both are clamped to the length.

  \<^verbatim>\<open>trim\<close> removes the white space and the line terminators of the language at both
  ends. \<open>white_space\<close> lists them, each as its UTF-8 bytes: U+0009 to U+000D, U+0020,
  U+00A0, U+1680, U+2000 to U+200A, U+2028, U+2029, U+202F, U+205F, U+3000 and U+FEFF.
  \<open>strip ws s\<close> removes from the front of \<open>s\<close> every member of \<open>ws\<close> it finds there; the
  back is stripped on the reversed string with the reversed members.
\<close>

fun lastIndexOf :: "string \<Rightarrow> char \<Rightarrow> int" where
  "lastIndexOf [] c = - 1"
| "lastIndexOf (x # xs) c =
     (if lastIndexOf xs c \<noteq> - 1 then lastIndexOf xs c + 1
      else if x = c then 0 else - 1)"

definition slice_index :: "nat \<Rightarrow> int \<Rightarrow> nat" where
  "slice_index len i = (if i < 0 then nat (max (int len + i) 0) else min (nat i) len)"

definition slice :: "int \<Rightarrow> int \<Rightarrow> 'a list \<Rightarrow> 'a list" where
  "slice start fin xs =
     (let k = slice_index (length xs) start; e = slice_index (length xs) fin
      in take (e - k) (drop k xs))"

definition white_space :: "string list" where
  "white_space =
     map (\<lambda>c. [c]) [CHR 0x09, CHR 0x0A, CHR 0x0B, CHR 0x0C, CHR 0x0D, CHR 0x20]
     @ [[CHR 0xC2, CHR 0xA0], [CHR 0xE1, CHR 0x9A, CHR 0x80]]
     @ map (\<lambda>c. [CHR 0xE2, CHR 0x80, c])
         [CHR 0x80, CHR 0x81, CHR 0x82, CHR 0x83, CHR 0x84, CHR 0x85, CHR 0x86, CHR 0x87,
          CHR 0x88, CHR 0x89, CHR 0x8A, CHR 0xA8, CHR 0xA9, CHR 0xAF]
     @ [[CHR 0xE2, CHR 0x81, CHR 0x9F], [CHR 0xE3, CHR 0x80, CHR 0x80],
        [CHR 0xEF, CHR 0xBB, CHR 0xBF]]"

function strip :: "string list \<Rightarrow> string \<Rightarrow> string" where
  "strip ws s =
     (case find (\<lambda>w. w \<noteq> [] \<and> take (length w) s = w) ws of
        None \<Rightarrow> s
      | Some w \<Rightarrow> strip ws (drop (length w) s))"
  by pat_completeness auto
termination
proof (relation "measure (\<lambda>(ws, s). length s)")
  show "wf (measure (\<lambda>(ws, s). length s))" by simp
next
  fix ws :: "string list" and s w :: string
  assume "find (\<lambda>w. w \<noteq> [] \<and> take (length w) s = w) ws = Some w"
  then have "w \<noteq> [] \<and> take (length w) s = w" by (auto simp: find_Some_iff)
  then have n: "w \<noteq> []" and e: "take (length w) s = w" by simp_all
  have "length (take (length w) s) = length w" using e by simp
  then have "length w \<le> length s" by simp
  then show "((ws, drop (length w) s), (ws, s)) \<in> measure (\<lambda>(ws, s). length s)"
    using n by (cases w) auto
qed

declare strip.simps [simp del]

definition trim :: "string \<Rightarrow> string" where
  "trim s = rev (strip (map rev white_space) (rev (strip white_space s)))"

definition parseRiotId :: "string \<Rightarrow> error + string \<times> string" where
  "parseRiotId input =
     (let idx = lastIndexOf input CHR ''#''
      in if idx = - 1 then Inl RiotIdFormatHint
         else let gameName = trim (slice 0 idx input);
                  tagLine = trim (slice (idx + 1) (int (length input)) input)
              in if gameName = [] \<or> tagLine = [] then Inl RiotIdFormat
                 else Inr (gameName, tagLine))"

section \<open>Configuration and endpoints\<close>

text \<open>
  \<^verbatim>\<open>
  let RIOT_REGION = process.env.RIOT_REGION || 'europe';
  let VAL_SHARD = process.env.VAL_SHARD || 'eu';
  function riotBases(region = RIOT_REGION, shard = VAL_SHARD) {
    return {
      account: `https://${region}.api.riotgames.com/riot/account/v1`,
      match: `https://${shard}.api.riotgames.com/val/match/v1`,
    };
  }
  \<close>
  An environment variable, a command option and a field of a stored link are each a
  string or missing. \<open>js_or a b\<close> is \<^verbatim>\<open>a || b\<close> for such an \<open>a\<close>: the empty string is
  falsy as a missing value is. Neither variable is assigned again after start-up.
\<close>

record env =
  env_RIOT_REGION :: "string option"
  env_VAL_SHARD :: "string option"

definition js_or :: "string option \<Rightarrow> string \<Rightarrow> string" where
  "js_or a b = (case a of None \<Rightarrow> b | Some s \<Rightarrow> if s = [] then b else s)"

definition RIOT_REGION :: "env \<Rightarrow> string" where
  "RIOT_REGION e = js_or (env_RIOT_REGION e) ''europe''"

definition VAL_SHARD :: "env \<Rightarrow> string" where
  "VAL_SHARD e = js_or (env_VAL_SHARD e) ''eu''"

definition default_arg :: "string option \<Rightarrow> string \<Rightarrow> string" where
  "default_arg a d = (case a of None \<Rightarrow> d | Some s \<Rightarrow> s)"

definition riotBases :: "env \<Rightarrow> string option \<Rightarrow> string option \<Rightarrow> string \<times> string" where
  "riotBases e region shard =
     (''https://'' @ default_arg region (RIOT_REGION e) @ ''.api.riotgames.com/riot/account/v1'',
      ''https://'' @ default_arg shard (VAL_SHARD e) @ ''.api.riotgames.com/val/match/v1'')"

section \<open>Remote API client\<close>

text \<open>
  \<^verbatim>\<open>
  async function riotRequest(url, init = {}, retry = 2) {
    await takeToken();
    const headers = { 'X-Riot-Token': RIOT_API_KEY, 'Accept': 'application/json', ...init.headers };
    const res = await fetch(url, { ...init, headers });
    if (res.status === 429 && retry > 0) {
      const retryAfter = Number(res.headers.get('Retry-After') || 1) * 1000;
      await new Promise(r => setTimeout(r, retryAfter));
      return riotRequest(url, init, retry - 1);
    }
    if (!res.ok) { throw new Error(`Riot ${res.status}: ${await res.text().catch(()=>'')}`); }
    return res.json();
  }
  \<close>
  The remote service is a function: \<open>remote url i\<close> is what the \<open>i\<close>-th \<^verbatim>\<open>fetch\<close> of
  \<open>url\<close> gives, a rejected promise or a response. Of a response the call reads the
  status, the \<^verbatim>\<open>Retry-After\<close> header, the body as text and the body as JSON.
  \<open>retryAfter\<close> is the header as \<^verbatim>\<open>Number\<close> reads it, in seconds, and \<open>None\<close> when
  \<^verbatim>\<open>headers.get\<close> gives \<^verbatim>\<open>null\<close> or the empty string; a header that is not a whole number
  of seconds is not modelled. \<open>bodyText\<close> and \<open>bodyJson\<close> are \<^verbatim>\<open>res.text()\<close> and
  \<^verbatim>\<open>res.json()\<close>, \<open>None\<close> when the promise rejects.
  \<^verbatim>\<open>res.ok\<close> is a status from 200 to 299. The request headers are not read by anything
  below and are left out. What the call does besides returning is its list of events,
  in order: taking a token, fetching, sleeping.
\<close>

record response =
  status :: nat
  retryAfter :: "nat option"
  bodyText :: "string option"
  bodyJson :: "jsval option"

datatype fetched = Rejected | Responded response

type_synonym remote = "string \<Rightarrow> nat \<Rightarrow> fetched"

datatype event = TakeToken | Fetch string | Sleep nat

definition ok :: "response \<Rightarrow> bool" where
  "ok res = (200 \<le> status res \<and> status res \<le> 299)"

definition retryAfterMs :: "response \<Rightarrow> nat" where
  "retryAfterMs res = (case retryAfter res of None \<Rightarrow> 1 | Some n \<Rightarrow> n) * 1000"

definition settle :: "response \<Rightarrow> error + jsval" where
  "settle res =
     (if \<not> ok res then Inl (RiotHttp (status res) (case bodyText res of None \<Rightarrow> [] | Some b \<Rightarrow> b))
      else (case bodyJson res of None \<Rightarrow> Inl JsonSyntax | Some v \<Rightarrow> Inr v))"

fun riotRequest :: "remote \<Rightarrow> string \<Rightarrow> nat \<Rightarrow> nat \<Rightarrow> (error + jsval) \<times> event list" where
  "riotRequest remote url i retry =
     (case remote url i of
        Rejected \<Rightarrow> (Inl FetchFailed, [TakeToken, Fetch url])
      | Responded res \<Rightarrow>
          if status res = 429 \<and> retry > 0
          then (case riotRequest remote url (Suc i) (retry - 1) of
                  (r, evs) \<Rightarrow> (r, [TakeToken, Fetch url, Sleep (retryAfterMs res)] @ evs))
          else (settle res, [TakeToken, Fetch url]))"

declare riotRequest.simps [simp del]

text \<open>
  \<^verbatim>\<open>
  async function getAccountByRiotId(gameName, tagLine, region) {
    const { account } = riotBases(region);
    const url = `${account}/accounts/by-riot-id/${encodeURIComponent(gameName)}/${encodeURIComponent(tagLine)}`;
    return riotRequest(url);
  }
  \<close>
  \<^verbatim>\<open>encodeURIComponent\<close> keeps the letters, the digits and \<^verbatim>\<open>- _ . ! ~ * ' ( )\<close> and
  writes every other byte as \<^verbatim>\<open>%\<close> and two hexadecimal digits.
\<close>

definition hex_digit :: "nat \<Rightarrow> char" where
  "hex_digit n = ''0123456789ABCDEF'' ! (n mod 16)"

definition unreserved :: "char \<Rightarrow> bool" where
  "unreserved c =
     (let n = (of_char c :: nat)
      in (65 \<le> n \<and> n \<le> 90) \<or> (97 \<le> n \<and> n \<le> 122) \<or> (48 \<le> n \<and> n \<le> 57)
         \<or> c \<in> set (CHR 0x27 # ''-_.!~*()''))"

definition encodeURIComponent :: "string \<Rightarrow> string" where
  "encodeURIComponent s =
     concat (map (\<lambda>c. if unreserved c then [c]
                       else [CHR ''%'', hex_digit (of_char c div 16), hex_digit (of_char c)]) s)"

definition getAccountByRiotId ::
  "env \<Rightarrow> remote \<Rightarrow> string \<Rightarrow> string \<Rightarrow> string option \<Rightarrow> (error + jsval) \<times> event list" where
  "getAccountByRiotId e remote gameName tagLine region =
     (let account = fst (riotBases e region None);
          url = account @ ''/accounts/by-riot-id/'' @ encodeURIComponent gameName @ ''/''
                @ encodeURIComponent tagLine
      in riotRequest remote url 0 2)"

text \<open>
  The retry policy in the words of the specification, to compare \<open>riotRequest\<close> with:
  a fetch is rate limited when it is answered with status 429; the pause after it is the
  retry-after hint in milliseconds; the number of retries of a call is the number of
  rate-limited answers it meets in a row, no more than the budget; the outcome of the
  call is the outcome of the fetch that was not retried.
\<close>

definition rate_limited :: "fetched \<Rightarrow> bool" where
  "rate_limited f = (case f of Rejected \<Rightarrow> False | Responded res \<Rightarrow> status res = 429)"

definition backoff_of :: "fetched \<Rightarrow> nat" where
  "backoff_of f = (case f of Rejected \<Rightarrow> 0 | Responded res \<Rightarrow> retryAfterMs res)"

definition outcome_of :: "fetched \<Rightarrow> error + jsval" where
  "outcome_of f = (case f of Rejected \<Rightarrow> Inl FetchFailed | Responded res \<Rightarrow> settle res)"

definition retries :: "remote \<Rightarrow> string \<Rightarrow> nat \<Rightarrow> nat \<Rightarrow> nat" where
  "retries remote url i retry =
     length (takeWhile (\<lambda>j. rate_limited (remote url j)) [i..<i + retry])"

section \<open>Match lists\<close>

text \<open>
  \<^verbatim>\<open>
  async function getRecentMatchIdsByPuuid(puuid, shard, start = 0, count = 5) {
    const { match } = riotBases(undefined, shard);
    const key = `matchlist:${shard}:${puuid}`;
    const cached = cache.get(key);
    if (cached) return cached.history.slice(start, start + count).map(h => h.matchId);
    const data = await riotRequest(`${match}/matchlists/by-puuid/${puuid}`);
    cache.set(key, data, 30_000); // 30s
    return (data?.history || []).slice(start, start + count).map(h => h.matchId);
  }
  \<close>
  \<open>truthy\<close> is JavaScript's conversion to a boolean. \<open>getProp name v\<close> is the property read
  \<^verbatim>\<open>v.name\<close> for the names read from a response, \<^verbatim>\<open>history\<close> and \<^verbatim>\<open>matchId\<close> here and
  \<^verbatim>\<open>puuid\<close>, \<^verbatim>\<open>gameName\<close> and \<^verbatim>\<open>tagLine\<close> in the handlers: a
  \<^verbatim>\<open>TypeError\<close> on \<^verbatim>\<open>undefined\<close> and \<^verbatim>\<open>null\<close>, the field of an object (the last one when
  the JSON text repeats a name), and \<^verbatim>\<open>undefined\<close> on every other value, none of which
  has a property of such a name. \<open>optProp\<close> is \<^verbatim>\<open>v?.name\<close>. \<open>sliceMap\<close> is
  \<^verbatim>\<open>x.slice(start, start + count).map(h => h.matchId)\<close>: only an array has both methods
  (a string has \<^verbatim>\<open>slice\<close> but its result has no \<^verbatim>\<open>map\<close>; a JSON object never holds a
  function), everything else is a \<^verbatim>\<open>TypeError\<close>. \<open>t\<close> is the clock when the function is
  entered and \<open>t'\<close> the clock when the response has come.
\<close>

definition truthy :: "jsval \<Rightarrow> bool" where
  "truthy v =
     (case v of JUndefined \<Rightarrow> False | JNull \<Rightarrow> False | JBool b \<Rightarrow> b | JNum n \<Rightarrow> n \<noteq> 0
      | JStr s \<Rightarrow> s \<noteq> [] | JArr xs \<Rightarrow> True | JObj fs \<Rightarrow> True)"

definition getProp :: "string \<Rightarrow> jsval \<Rightarrow> error + jsval" where
  "getProp name v =
     (case v of
        JUndefined \<Rightarrow> Inl TypeError
      | JNull \<Rightarrow> Inl TypeError
      | JObj fs \<Rightarrow> (case map_of (rev fs) name of None \<Rightarrow> Inr JUndefined | Some x \<Rightarrow> Inr x)
      | _ \<Rightarrow> Inr JUndefined)"

definition optProp :: "string \<Rightarrow> jsval \<Rightarrow> error + jsval" where
  "optProp name v = (if v = JUndefined \<or> v = JNull then Inr JUndefined else getProp name v)"

fun mapProp :: "string \<Rightarrow> jsval list \<Rightarrow> error + jsval list" where
  "mapProp name [] = Inr []"
| "mapProp name (h # hs) =
     (case getProp name h of
        Inl err \<Rightarrow> Inl err
      | Inr x \<Rightarrow> (case mapProp name hs of Inl err \<Rightarrow> Inl err | Inr xs \<Rightarrow> Inr (x # xs)))"

definition sliceMap :: "jsval \<Rightarrow> int \<Rightarrow> int \<Rightarrow> error + jsval list" where
  "sliceMap x start count =
     (case x of
        JArr hs \<Rightarrow> mapProp ''matchId'' (slice start (start + count) hs)
      | _ \<Rightarrow> Inl TypeError)"

definition getRecentMatchIdsByPuuid ::
  "env \<Rightarrow> remote \<Rightarrow> int \<Rightarrow> int \<Rightarrow> TTLCache \<Rightarrow> string \<Rightarrow> string \<Rightarrow> int \<Rightarrow> int
     \<Rightarrow> (error + jsval list) \<times> event list \<times> TTLCache" where
  "getRecentMatchIdsByPuuid e remote t t' cache puuid shard start count =
     (let match = snd (riotBases e None (Some shard));
          key = ''matchlist:'' @ shard @ '':'' @ puuid;
          (cached, cache1) = cache_get t key cache
      in if truthy cached
         then (case getProp ''history'' cached of
                 Inl err \<Rightarrow> (Inl err, [], cache1)
               | Inr history \<Rightarrow> (sliceMap history start count, [], cache1))
         else (case riotRequest remote (match @ ''/matchlists/by-puuid/'' @ puuid) 0 2 of
                 (Inl err, evs) \<Rightarrow> (Inl err, evs, cache1)
               | (Inr data, evs) \<Rightarrow>
                   (let cache2 = cache_set t' key data (Some 30000) cache1
                    in (case optProp ''history'' data of
                          Inl err \<Rightarrow> (Inl err, evs, cache2)
                        | Inr history \<Rightarrow>
                            (sliceMap (if truthy history then history else JArr []) start count,
                             evs, cache2)))))"

section \<open>Match aggregator\<close>

text \<open>
  \<^verbatim>\<open>
  function aggregateRecentStats(puuid, matches, modeFilter) {
    let k=0,d=0,a=0,wins=0,total=0; const perAgent=new Map(); const perMap=new Map();
    for (const m of matches) {
      const mode = m.matchInfo?.gameMode || 'unknown';
      if (modeFilter && mode !== modeFilter) continue;
      const player = m.players?.find(p => p.puuid === puuid);
      if (!player?.stats) continue;
      const team = player.teamId; const won = m.teams?.find(t => t.teamId === team)?.won;
      if (won) wins++; total++;
      k += player.stats.kills||0; d += player.stats.deaths||0; a += player.stats.assists||0;
      const ag = (player.characterId || 'unknown').toLowerCase();
      const map = (m.matchInfo?.mapId?.split('/')?.pop() || 'map').toLowerCase();
      perAgent.set(ag, (perAgent.get(ag)||0)+1);
      perMap.set(map, (perMap.get(map)||0)+1);
    }
    const kd = d>0 ? (k/d).toFixed(2) : '\<infinity>';
    return { k,d,a,wins,total,kd, perAgent, perMap };
  }
  \<close>
  A match record has the shape of the remote API's match object, with every field the
  code guards (\<^verbatim>\<open>?.\<close>, \<^verbatim>\<open>||\<close>) optional: \<open>None\<close> is a missing field. Counters are natural
  numbers. A \<^verbatim>\<open>Map\<close> is a list of pairs in insertion order with one entry a key.

  \<^verbatim>\<open>toLowerCase\<close> on a string of ASCII characters turns the letters \<open>A\<close> to \<open>Z\<close> into
  \<open>a\<close> to \<open>z\<close> and leaves the rest. On a string with a character beyond ASCII it follows
  the case mappings of the Unicode standard, tables that are no part of the source:
  the parameter \<open>unicode\<close> is \<^verbatim>\<open>toLowerCase\<close> on those strings, and nothing is assumed
  of it.
\<close>

record stats =
  kills :: "nat option"
  deaths :: "nat option"
  assists :: "nat option"

record player =
  p_puuid :: string
  p_teamId :: "string option"
  p_characterId :: "string option"
  p_stats :: "stats option"

record team =
  t_teamId :: "string option"
  t_won :: "bool option"

record match_info =
  gameMode :: "string option"
  mapId :: "string option"

record match =
  matchInfo :: "match_info option"
  players :: "player list option"
  teams :: "team list option"

definition Map_get :: "(string \<times> nat) list \<Rightarrow> string \<Rightarrow> nat option" where
  "Map_get m key = map_of m key"

fun Map_set :: "string \<Rightarrow> nat \<Rightarrow> (string \<times> nat) list \<Rightarrow> (string \<times> nat) list" where
  "Map_set key v [] = [(key, v)]"
| "Map_set key v ((x, n) # m) = (if x = key then (x, v) # m else (x, n) # Map_set key v m)"

definition or0 :: "nat option \<Rightarrow> nat" where
  "or0 x = (case x of None \<Rightarrow> 0 | Some n \<Rightarrow> n)"

definition ascii_lower :: "char \<Rightarrow> char" where
  "ascii_lower c =
     (if 65 \<le> (of_char c :: nat) \<and> (of_char c :: nat) \<le> 90
      then char_of (of_char c + (32 :: nat)) else c)"

definition toLowerCase :: "(string \<Rightarrow> string) \<Rightarrow> string \<Rightarrow> string" where
  "toLowerCase unicode s =
     (if list_all (\<lambda>c. (of_char c :: nat) < 128) s then map ascii_lower s else unicode s)"

fun split :: "char \<Rightarrow> string \<Rightarrow> string list" where
  "split c [] = [[]]"
| "split c (x # xs) =
     (if x = c then [] # split c xs
      else (case split c xs of [] \<Rightarrow> [[x]] | w # ws \<Rightarrow> (x # w) # ws))"

definition pop :: "string list \<Rightarrow> string option" where
  "pop xs = (if xs = [] then None else Some (last xs))"

text \<open>
  \<^verbatim>\<open>(k/d).toFixed(2)\<close> for counters \<open>k\<close> and \<open>d > 0\<close> below \<open>2^53\<close>, where both are exact
  doubles. The quotient is the double nearest to \<open>k/d\<close>, ties to the even significand:
  \<open>significand k d / 2 ^ shift k d\<close>, with \<open>shift\<close> chosen so that the significand has 53
  bits. \<^verbatim>\<open>toFixed(2)\<close> then takes the integer \<open>n\<close> for which \<open>n / 100\<close> is nearest to that
  double, the larger one of two, and prints \<open>n\<close> with the point before its last two
  digits; \<open>toFixed2\<close> is that \<open>n\<close>.
\<close>

fun bits :: "nat \<Rightarrow> nat" where
  "bits n = (if n = 0 then 0 else Suc (bits (n div 2)))"

declare bits.simps [simp del]

definition shift :: "nat \<Rightarrow> nat \<Rightarrow> nat" where
  "shift k d = (let t = 52 + bits d - bits k in if 2 ^ 52 * d \<le> k * 2 ^ t then t else t + 1)"

definition significand :: "nat \<Rightarrow> nat \<Rightarrow> nat" where
  "significand k d =
     (let p = k * 2 ^ shift k d; q = p div d; r = p mod d
      in if d < 2 * r \<or> (2 * r = d \<and> odd q) then q + 1 else q)"

definition toFixed2 :: "nat \<Rightarrow> nat \<Rightarrow> nat" where
  "toFixed2 k d =
     (if k = 0 then 0
      else (200 * significand k d + 2 ^ shift k d) div 2 ^ (shift k d + 1))"

datatype ratio = KdInfinite | KdFixed nat

record tally =
  sum_k :: nat
  sum_d :: nat
  sum_a :: nat
  wins :: nat
  total :: nat
  perAgent :: "(string \<times> nat) list"
  perMap :: "(string \<times> nat) list"

record summary = tally +
  kd :: ratio

definition tally0 :: tally where
  "tally0 = \<lparr>sum_k = 0, sum_d = 0, sum_a = 0, wins = 0, total = 0, perAgent = [], perMap = []\<rparr>"

text \<open>One turn of the loop: \<open>acc\<close> holds the seven variables, \<open>m\<close> is the record.\<close>

definition count_match ::
  "(string \<Rightarrow> string) \<Rightarrow> string \<Rightarrow> string option \<Rightarrow> tally \<Rightarrow> match \<Rightarrow> tally" where
  "count_match unicode puuid modeFilter acc m =
     (let mode = js_or (Option.bind (matchInfo m) gameMode) ''unknown''
      in if js_or modeFilter [] \<noteq> [] \<and> Some mode \<noteq> modeFilter then acc
         else (case Option.bind (players m) (find (\<lambda>p. p_puuid p = puuid)) of
                 None \<Rightarrow> acc
               | Some player \<Rightarrow>
                   (case p_stats player of
                      None \<Rightarrow> acc
                    | Some st \<Rightarrow>
                        (let team = p_teamId player;
                             won = Option.bind
                                     (Option.bind (teams m) (find (\<lambda>t. t_teamId t = team)))
                                     t_won;
                             ag = toLowerCase unicode (js_or (p_characterId player) ''unknown'');
                             mp = toLowerCase unicode
                                    (js_or (Option.bind (Option.bind (matchInfo m) mapId)
                                              (\<lambda>s. pop (split CHR ''/'' s))) ''map'')
                         in acc\<lparr>wins := wins acc + (if won = Some True then 1 else 0),
                                total := total acc + 1,
                                sum_k := sum_k acc + or0 (kills st),
                                sum_d := sum_d acc + or0 (deaths st),
                                sum_a := sum_a acc + or0 (assists st),
                                perAgent := Map_set ag (or0 (Map_get (perAgent acc) ag) + 1)
                                              (perAgent acc),
                                perMap := Map_set mp (or0 (Map_get (perMap acc) mp) + 1)
                                            (perMap acc)\<rparr>))))"

definition aggregateRecentStats ::
  "(string \<Rightarrow> string) \<Rightarrow> string \<Rightarrow> match list \<Rightarrow> string option \<Rightarrow> summary" where
  "aggregateRecentStats unicode puuid matches modeFilter =
     (let acc = foldl (count_match unicode puuid modeFilter) tally0 matches
      in tally.extend acc
           (summary.fields
              (if sum_d acc > 0 then KdFixed (toFixed2 (sum_k acc) (sum_d acc)) else KdInfinite)))"

text \<open>
  The tallies in the words of the claim, to compare the loop with. A record counts when
  it passes the mode filter and holds the tracked player with stats; \<open>tracked\<close> is that
  player's entry. The agent key of a counted record is the lower-cased character
  identifier, \<open>unknown\<close> when there is none; its map key is the lower-cased part of the
  map identifier after the last \<open>/\<close>, \<open>map\<close> when there is none. A tally holds a key with
  the number of counted records that have it, and holds no key with the number zero.
\<close>

definition tracked :: "string \<Rightarrow> string option \<Rightarrow> match \<Rightarrow> player option" where
  "tracked puuid modeFilter m =
     (let mode = (case matchInfo m of
                    None \<Rightarrow> ''unknown''
                  | Some mi \<Rightarrow> (case gameMode mi of
                                 None \<Rightarrow> ''unknown''
                               | Some g \<Rightarrow> if g = [] then ''unknown'' else g));
          wanted = (case modeFilter of None \<Rightarrow> True | Some f \<Rightarrow> f = [] \<or> f = mode)
      in if \<not> wanted then None
         else (case players m of
                 None \<Rightarrow> None
               | Some ps \<Rightarrow>
                   (case find (\<lambda>p. p_puuid p = puuid) ps of
                      None \<Rightarrow> None
                    | Some pl \<Rightarrow> (case p_stats pl of None \<Rightarrow> None | Some st \<Rightarrow> Some pl))))"

definition agentKey :: "(string \<Rightarrow> string) \<Rightarrow> player \<Rightarrow> string" where
  "agentKey unicode pl =
     toLowerCase unicode
       (case p_characterId pl of None \<Rightarrow> ''unknown'' | Some c \<Rightarrow> if c = [] then ''unknown'' else c)"

definition mapKey :: "(string \<Rightarrow> string) \<Rightarrow> match \<Rightarrow> string" where
  "mapKey unicode m =
     toLowerCase unicode
       (case matchInfo m of
          None \<Rightarrow> ''map''
        | Some mi \<Rightarrow>
            (case mapId mi of
               None \<Rightarrow> ''map''
             | Some s \<Rightarrow>
                 (let seg = drop (nat (lastIndexOf s CHR ''/'' + 1)) s
                  in if seg = [] then ''map'' else seg)))"

definition tallied :: "nat \<Rightarrow> nat option" where
  "tallied n = (if n = 0 then None else Some n)"

section \<open>Links and routing\<close>

text \<open>
  \<^verbatim>\<open>
  let LINKS = loadJson(DB_PATH, {}); // { [discordUserId]: { gameName, tagLine, shard?, region?, lastLinkedAt } }
  function userLink(userId){ return LINKS[userId]; }
  function effectiveShard(link){ return link?.shard || VAL_SHARD; }
  function effectiveRegion(link){ return link?.region || RIOT_REGION; }
  \<close>
  A stored link holds the name and the tag as the account payload gave them, and a
  shard and a region that may each be missing: \<^verbatim>\<open>/setshard\<close> and \<^verbatim>\<open>/setregion\<close> create a
  link that has nothing else. \<open>None\<close> is \<^verbatim>\<open>undefined\<close>, for a link as for a field.
\<close>

record link =
  l_gameName :: jsval
  l_tagLine :: jsval
  l_shard :: "string option"
  l_region :: "string option"
  l_lastLinkedAt :: "int option"

type_synonym LINKS = "string \<rightharpoonup> link"

definition userLink :: "LINKS \<Rightarrow> string \<Rightarrow> link option" where
  "userLink db userId = db userId"

definition effectiveShard :: "env \<Rightarrow> link option \<Rightarrow> string" where
  "effectiveShard e lnk = js_or (Option.bind lnk l_shard) (VAL_SHARD e)"

definition effectiveRegion :: "env \<Rightarrow> link option \<Rightarrow> string" where
  "effectiveRegion e lnk = js_or (Option.bind lnk l_region) (RIOT_REGION e)"

text \<open>
  The link command resolves its pair with \<^verbatim>\<open>shard||effectiveShard()\<close> and
  \<^verbatim>\<open>region||effectiveRegion()\<close>, written out three times in the handler (for the account
  lookup, for the stored link and for the reply); \<open>shard\<close> and \<open>region\<close> are the
  command's options, and the two functions are called without a link.
\<close>

definition linkShard :: "env \<Rightarrow> string option \<Rightarrow> string" where
  "linkShard e shard = js_or shard (effectiveShard e None)"

definition linkRegion :: "env \<Rightarrow> string option \<Rightarrow> string" where
  "linkRegion e region = js_or region (effectiveRegion e None)"

section \<open>Command handlers\<close>

text \<open>
  The handlers talk to the user through the interaction object of discord.js v14, the
  library the file imports. Of that object the model keeps who invoked the command,
  the two flags the library keeps, and the message the user sees. The three methods
  behave as the library's \<^verbatim>\<open>InteractionResponses\<close> does: \<^verbatim>\<open>deferReply\<close> and \<^verbatim>\<open>reply\<close>
  reject with \<^verbatim>\<open>InteractionAlreadyReplied\<close> when the interaction is already deferred or
  replied, \<^verbatim>\<open>editReply\<close> rejects with \<^verbatim>\<open>InteractionNotReplied\<close> when it is neither.

  What a handler writes to the user is a \<open>content\<close>, one constructor for each message
  text of the source: \<open>Linked\<close> is \<^verbatim>\<open>Powiazano z **name#tag** (shard / region).\<close>,
  \<open>LinkFailed e\<close> is \<^verbatim>\<open>Nie udalo sie powiazac: ${e.message}\<close>, \<open>NoLink\<close> is
  \<^verbatim>\<open>Brak powiazanego Riot ID. Uzyj /link Nick#TAG\<close>, \<open>Me\<close> is
  \<^verbatim>\<open>Masz powiazane: **name#tag** * shard: ... * region: ...\<close>, \<open>NotLinkedSelf\<close> is
  \<^verbatim>\<open>Nie masz powiazanego Riot ID. Uzyj /link Nick#TAG\<close>, \<open>NotLinkedOther id\<close> is
  \<^verbatim>\<open>${userMention(id)} nie ma powiazanego Riot ID.\<close>, \<open>Failed e\<close> is \<^verbatim>\<open>Blad: ${e.message}\<close>,
  \<open>ShardSet\<close> and \<open>RegionSet\<close> are the confirmations of the two setters, and \<open>Other\<close> is
  any message of the parts of the handlers that are not modelled.

  The state a handler works on is the link store, the interaction, the cache, the events
  of the remote API client, and what \<^verbatim>\<open>console.error\<close> printed. A step returns the state and,
  when it throws, the error. Writing the link store to disk (\<^verbatim>\<open>saveJson\<close>) catches its
  own errors and changes nothing here.
\<close>

datatype content =
    Linked jsval jsval string string
  | LinkFailed error
  | NoLink
  | Me string string string string
  | NotLinkedSelf
  | NotLinkedOther string
  | Failed error
  | ShardSet string
  | RegionSet string
  | Other string

record interaction =
  user_id :: string
  deferred :: bool
  replied :: bool
  shown :: "content option"

record world =
  links :: LINKS
  ia :: interaction
  cache :: TTLCache
  events :: "event list"
  console :: "error list"

type_synonym step = "error option \<times> world"

definition deferReply :: "world \<Rightarrow> step" where
  "deferReply w =
     (if deferred (ia w) \<or> replied (ia w) then (Some InteractionAlreadyReplied, w)
      else (None, w\<lparr>ia := (ia w)\<lparr>deferred := True\<rparr>\<rparr>))"

definition reply :: "content \<Rightarrow> world \<Rightarrow> step" where
  "reply c w =
     (if deferred (ia w) \<or> replied (ia w) then (Some InteractionAlreadyReplied, w)
      else (None, w\<lparr>ia := (ia w)\<lparr>replied := True, shown := Some c\<rparr>\<rparr>))"

definition editReply :: "content \<Rightarrow> world \<Rightarrow> step" where
  "editReply c w =
     (if \<not> deferred (ia w) \<and> \<not> replied (ia w) then (Some InteractionNotReplied, w)
      else (None, w\<lparr>ia := (ia w)\<lparr>replied := True, shown := Some c\<rparr>\<rparr>))"

text \<open>
  \<open>andThen r k\<close> is \<^verbatim>\<open>await r; k\<close>: \<open>k\<close> runs unless \<open>r\<close> threw.
  \<open>try_catch r h\<close> is \<^verbatim>\<open>try { r } catch (e) { h }\<close>. \<open>listener\<close> is the outermost
  \<^verbatim>\<open>try { ... } catch (err) { console.error('Handler error:', err); }\<close> of the
  \<^verbatim>\<open>interactionCreate\<close> listener: whatever a handler throws ends there.
\<close>

definition andThen :: "step \<Rightarrow> (world \<Rightarrow> step) \<Rightarrow> step" where
  "andThen r k = (case r of (None, w) \<Rightarrow> k w | (Some err, w) \<Rightarrow> (Some err, w))"

definition try_catch :: "step \<Rightarrow> (error \<Rightarrow> world \<Rightarrow> step) \<Rightarrow> step" where
  "try_catch r h = (case r of (None, w) \<Rightarrow> (None, w) | (Some err, w) \<Rightarrow> h err w)"

definition listener :: "step \<Rightarrow> world" where
  "listener r = (case r of (None, w) \<Rightarrow> w | (Some err, w) \<Rightarrow> w\<lparr>console := console w @ [err]\<rparr>)"

text \<open>
  A value of a response or of a stored link that is written into a URL, a cache key or
  a message goes through JavaScript's conversion to a string. \<open>toStr\<close> is that
  conversion, with the conversion of a number as the parameter \<open>num\<close>. An array is its
  elements joined by commas, \<^verbatim>\<open>null\<close> and \<^verbatim>\<open>undefined\<close> among them as the empty string.
  An object is \<^verbatim>\<open>[object Object]\<close>, unless the JSON text gave it a field \<^verbatim>\<open>toString\<close>:
  that field is not a function, \<^verbatim>\<open>valueOf\<close> gives no primitive value, and the
  conversion throws a \<^verbatim>\<open>TypeError\<close>.
  \<^verbatim>\<open>
  function trackerUrl(gameName, tagLine){
    const id = `${encodeURIComponent(gameName)}%23${encodeURIComponent(tagLine)}`;
    return `https://tracker.gg/valorant/profile/riot/${id}/overview`;}
  \<close>
\<close>

fun join :: "string list \<Rightarrow> string" where
  "join [] = []"
| "join [x] = x"
| "join (x # y # ys) = x @ '','' @ join (y # ys)"

fun collect :: "(error + 'a) list \<Rightarrow> error + 'a list" where
  "collect [] = Inr []"
| "collect (r # rs) =
     (case r of
        Inl err \<Rightarrow> Inl err
      | Inr x \<Rightarrow> (case collect rs of Inl err \<Rightarrow> Inl err | Inr xs \<Rightarrow> Inr (x # xs)))"

fun toStr :: "(int \<Rightarrow> string) \<Rightarrow> jsval \<Rightarrow> error + string" where
  "toStr num JUndefined = Inr ''undefined''"
| "toStr num JNull = Inr ''null''"
| "toStr num (JBool b) = Inr (if b then ''true'' else ''false'')"
| "toStr num (JNum n) = Inr (num n)"
| "toStr num (JStr s) = Inr s"
| "toStr num (JArr xs) =
     (case collect (map (\<lambda>x. if x = JUndefined \<or> x = JNull then Inr [] else toStr num x) xs) of
        Inl err \<Rightarrow> Inl err
      | Inr ss \<Rightarrow> Inr (join ss))"
| "toStr num (JObj fs) =
     (if ''toString'' \<in> set (map fst fs) then Inl TypeError else Inr ''[object Object]'')"

definition trackerUrl :: "(int \<Rightarrow> string) \<Rightarrow> jsval \<Rightarrow> jsval \<Rightarrow> error + string" where
  "trackerUrl num gameName tagLine =
     (case toStr num gameName of
        Inl err \<Rightarrow> Inl err
      | Inr g \<Rightarrow>
          (case toStr num tagLine of
             Inl err \<Rightarrow> Inl err
           | Inr tg \<Rightarrow>
               Inr (''https://tracker.gg/valorant/profile/riot/'' @ encodeURIComponent g @ ''%23''
                    @ encodeURIComponent tg @ ''/overview'')))"

text \<open>
  \<^verbatim>\<open>
  if (interaction.commandName==='link' || interaction.commandName==='dodaj'){
    const riotIdRaw = interaction.options.getString('riot_id', true);
    const shard = interaction.options.getString('shard');
    const region = interaction.options.getString('region');
    await interaction.deferReply({ ephemeral: true });
    try{
      const { gameName, tagLine } = parseRiotId(riotIdRaw);
      const account = await getAccountByRiotId(gameName, tagLine, region||effectiveRegion());
      LINKS[interaction.user.id] = { gameName: account.gameName, tagLine: account.tagLine,
        lastLinkedAt: Date.now(), shard: shard||effectiveShard(), region: region||effectiveRegion() };
      saveJson(DB_PATH, LINKS);
      const url = trackerUrl(account.gameName, account.tagLine);
      const row = new ActionRowBuilder().addComponents(new ButtonBuilder()...setURL(url));
      await interaction.editReply({ content:`Powiazano z **...** (...)`, components:[row] });
    }catch(e){ await interaction.editReply(`Nie udalo sie powiazac: ${e.message}`); }
    return;
  }
  \<close>
  The link is stored before the button and the message are built, so that a payload
  whose name or tag cannot be written as a string leaves the new link in the store and
  the failure message on the screen. The builders of discord.js are taken not to throw.
\<close>

definition link_try ::
  "env \<Rightarrow> (int \<Rightarrow> string) \<Rightarrow> remote \<Rightarrow> int \<Rightarrow> string \<Rightarrow> string option \<Rightarrow> string option
     \<Rightarrow> world \<Rightarrow> step" where
  "link_try e num remote now riotIdRaw shard region w =
     (case parseRiotId riotIdRaw of
        Inl err \<Rightarrow> (Some err, w)
      | Inr (gameName, tagLine) \<Rightarrow>
          (case getAccountByRiotId e remote gameName tagLine (Some (linkRegion e region)) of
             (r, evs) \<Rightarrow>
               (let w1 = w\<lparr>events := events w @ evs\<rparr>
                in case r of
                     Inl err \<Rightarrow> (Some err, w1)
                   | Inr account \<Rightarrow>
                       (case getProp ''gameName'' account of
                          Inl err \<Rightarrow> (Some err, w1)
                        | Inr gName \<Rightarrow>
                            (case getProp ''tagLine'' account of
                               Inl err \<Rightarrow> (Some err, w1)
                             | Inr tLine \<Rightarrow>
                                 (let w2 = w1\<lparr>links := (links w1)(user_id (ia w1) \<mapsto>
                                             \<lparr>l_gameName = gName, l_tagLine = tLine,
                                              l_shard = Some (linkShard e shard),
                                              l_region = Some (linkRegion e region),
                                              l_lastLinkedAt = Some now\<rparr>)\<rparr>
                                  in case trackerUrl num gName tLine of
                                       Inl err \<Rightarrow> (Some err, w2)
                                     | Inr url \<Rightarrow>
                                         editReply (Linked gName tLine (linkShard e shard)
                                                      (linkRegion e region)) w2))))))"

definition linkCommand ::
  "env \<Rightarrow> (int \<Rightarrow> string) \<Rightarrow> remote \<Rightarrow> int \<Rightarrow> string \<Rightarrow> string option \<Rightarrow> string option
     \<Rightarrow> world \<Rightarrow> step" where
  "linkCommand e num remote now riotIdRaw shard region w =
     andThen (deferReply w)
       (\<lambda>w0. try_catch (link_try e num remote now riotIdRaw shard region w0)
                (\<lambda>err. editReply (LinkFailed err)))"

text \<open>
  \<^verbatim>\<open>
  if (interaction.commandName==='setshard'){
    const shard = interaction.options.getString('shard', true);
    LINKS[interaction.user.id] = LINKS[interaction.user.id] || {};
    LINKS[interaction.user.id].shard = shard; saveJson(DB_PATH, LINKS);
    await interaction.reply({ content:`Ustawiono shard na **${shard}**.`, ephemeral:true });
    return;
  }
  \<close>
  and the same for \<^verbatim>\<open>setregion\<close>.
\<close>

definition emptyLink :: link where
  "emptyLink = \<lparr>l_gameName = JUndefined, l_tagLine = JUndefined, l_shard = None,
                 l_region = None, l_lastLinkedAt = None\<rparr>"

definition setshardCommand :: "string \<Rightarrow> world \<Rightarrow> step" where
  "setshardCommand shard w =
     (let uid = user_id (ia w);
          l = (case links w uid of None \<Rightarrow> emptyLink | Some l \<Rightarrow> l)
      in reply (ShardSet shard) (w\<lparr>links := (links w)(uid \<mapsto> l\<lparr>l_shard := Some shard\<rparr>)\<rparr>))"

definition setregionCommand :: "string \<Rightarrow> world \<Rightarrow> step" where
  "setregionCommand region w =
     (let uid = user_id (ia w);
          l = (case links w uid of None \<Rightarrow> emptyLink | Some l \<Rightarrow> l)
      in reply (RegionSet region) (w\<lparr>links := (links w)(uid \<mapsto> l\<lparr>l_region := Some region\<rparr>)\<rparr>))"

text \<open>
  \<^verbatim>\<open>
  if (interaction.commandName==='me'){
    const link = userLink(interaction.user.id);
    if (!link) return interaction.reply({ content:'Brak powiazanego Riot ID. Uzyj /link Nick#TAG', ephemeral:true });
    await interaction.reply({ content:`Masz powiazane: **${link.gameName}#${link.tagLine}** * shard: ${effectiveShard(link)} * region: ${effectiveRegion(link)}`, ephemeral:true });
    return;
  }
  \<close>
\<close>

definition meCommand :: "env \<Rightarrow> (int \<Rightarrow> string) \<Rightarrow> world \<Rightarrow> step" where
  "meCommand e num w =
     (case userLink (links w) (user_id (ia w)) of
        None \<Rightarrow> reply NoLink w
      | Some l \<Rightarrow>
          (case toStr num (l_gameName l) of
             Inl err \<Rightarrow> (Some err, w)
           | Inr g \<Rightarrow>
               (case toStr num (l_tagLine l) of
                  Inl err \<Rightarrow> (Some err, w)
                | Inr tg \<Rightarrow>
                    reply (Me g tg (effectiveShard e (Some l)) (effectiveRegion e (Some l))) w)))"

text \<open>
  \<^verbatim>\<open>
  async function ensureLink(target){
    const link = userLink(target.id);
    if (!link){
      const msg = target.id===interaction.user.id ? 'Nie masz ...' : `${userMention(target.id)} nie ma ...`;
      await interaction.reply({ content: msg, ephemeral: true });
      return null;
    }
    return link;
  }
  \<close>
\<close>

definition ensureLink :: "string \<Rightarrow> world \<Rightarrow> (error + link option) \<times> world" where
  "ensureLink target w =
     (case userLink (links w) target of
        Some l \<Rightarrow> (Inr (Some l), w)
      | None \<Rightarrow>
          (case reply (if target = user_id (ia w) then NotLinkedSelf else NotLinkedOther target) w of
             (Some err, w') \<Rightarrow> (Inl err, w')
           | (None, w') \<Rightarrow> (Inr None, w')))"

text \<open>
  \<^verbatim>\<open>
  if (interaction.commandName==='profile' || interaction.commandName==='profil'){
    const target = interaction.options.getUser('user') || interaction.user;
    const queue = interaction.options.getString('queue');
    const riotIdInline = interaction.options.getString('riot_id');
    await interaction.deferReply();
    try{
      let account, shardToUse, regionToUse;
      if (riotIdInline){
        const { gameName, tagLine } = parseRiotId(riotIdInline);
        regionToUse = effectiveRegion(userLink(target.id)) || effectiveRegion();
        shardToUse = effectiveShard(userLink(target.id)) || effectiveShard();
        account = await getAccountByRiotId(gameName, tagLine, regionToUse);
      } else {
        const link = await ensureLink(target); if (!link) return;
        regionToUse = effectiveRegion(link); shardToUse = effectiveShard(link);
        account = await getAccountByRiotId(link.gameName, link.tagLine, regionToUse);
      }
      ... // match list, matches, summary, embed, editReply
    }catch(e){ await interaction.editReply(`Blad: ${e.message}`); }
    return;
  }
  if (interaction.commandName==='lastmatch'){
    const target = interaction.options.getUser('user') || interaction.user;
    const link = await ensureLink(target); if (!link) return;
    await interaction.deferReply();
    try{ ... }catch(e){ await interaction.editReply(`Blad: ${e.message}`); }
    return;
  }
  \<close>
  The rest of each \<^verbatim>\<open>try\<close> block, from the account lookup on, is the parameter \<open>rest\<close>: it
  gets the name, the tag, the region, the shard and the queue option, and does to the
  state whatever it does. \<open>user\<close> is the id of the \<^verbatim>\<open>user\<close> option.
\<close>

type_synonym rest = "jsval \<Rightarrow> jsval \<Rightarrow> string \<Rightarrow> string \<Rightarrow> string option \<Rightarrow> world \<Rightarrow> step"

definition profileCommand ::
  "env \<Rightarrow> rest \<Rightarrow> string option \<Rightarrow> string option \<Rightarrow> string option \<Rightarrow> world \<Rightarrow> step" where
  "profileCommand e rest user queue riotIdInline w =
     (let target = default_arg user (user_id (ia w))
      in andThen (deferReply w)
           (\<lambda>w1. try_catch
              (if js_or riotIdInline [] \<noteq> []
               then (case parseRiotId (js_or riotIdInline []) of
                       Inl err \<Rightarrow> (Some err, w1)
                     | Inr (gameName, tagLine) \<Rightarrow>
                         rest (JStr gameName) (JStr tagLine)
                           (js_or (Some (effectiveRegion e (userLink (links w1) target)))
                                  (effectiveRegion e None))
                           (js_or (Some (effectiveShard e (userLink (links w1) target)))
                                  (effectiveShard e None))
                           queue w1)
               else (case ensureLink target w1 of
                       (Inl err, w2) \<Rightarrow> (Some err, w2)
                     | (Inr None, w2) \<Rightarrow> (None, w2)
                     | (Inr (Some l), w2) \<Rightarrow>
                         rest (l_gameName l) (l_tagLine l) (effectiveRegion e (Some l))
                           (effectiveShard e (Some l)) queue w2))
              (\<lambda>err. editReply (Failed err))))"

definition lastmatchCommand :: "env \<Rightarrow> rest \<Rightarrow> string option \<Rightarrow> world \<Rightarrow> step" where
  "lastmatchCommand e rest user w =
     (let target = default_arg user (user_id (ia w))
      in case ensureLink target w of
           (Inl err, w1) \<Rightarrow> (Some err, w1)
         | (Inr None, w1) \<Rightarrow> (None, w1)
         | (Inr (Some l), w1) \<Rightarrow>
             andThen (deferReply w1)
               (\<lambda>w2. try_catch
                  (rest (l_gameName l) (l_tagLine l) (effectiveRegion e (Some l))
                     (effectiveShard e (Some l)) None w2)
                  (\<lambda>err. editReply (Failed err))))"

text \<open>
  \<^verbatim>\<open>
  if (interaction.commandName==='agent-stats'){
    const target = interaction.options.getUser('user') || interaction.user;
    const queue = interaction.options.getString('queue');
    const agentQuery = (interaction.options.getString('agent')||'').toLowerCase();
    const link = await ensureLink(target); if (!link) return;
    await interaction.deferReply();
    try{
      const agents = await getAgents();
      let agentUuidFilter = null, agentDisplay = null;
      if (agentQuery){
        for (const [,a] of agents){ ... }
        if (!agentUuidFilter) return interaction.editReply('Nie znam takiego agenta.');
      }
      const account = await getAccountByRiotId(link.gameName, link.tagLine, effectiveRegion(link));
      const matchIds = await getRecentMatchIdsByPuuid(account.puuid, effectiveShard(link), 0, 20);
      ...
    }catch(e){ await interaction.editReply(`Blad: ${e.message}`); }
    return;
  }
  \<close>
  and the same for \<^verbatim>\<open>map-stats\<close>, with \<^verbatim>\<open>getMaps\<close> and the map filter. The first lines
  of the \<^verbatim>\<open>try\<close> block, which load the static data and find the filter, are the parameter
  \<open>getFilter\<close>: it throws, or ends the handler (\<open>None\<close>, after the message that the agent
  or the map is not known), or gives what the rest of the block needs of it.
\<close>

definition agentStatsCommand ::
  "env \<Rightarrow> (world \<Rightarrow> (error + 'f option) \<times> world) \<Rightarrow> ('f \<Rightarrow> rest) \<Rightarrow> string option
     \<Rightarrow> string option \<Rightarrow> world \<Rightarrow> step" where
  "agentStatsCommand e getFilter rest user queue w =
     (let target = default_arg user (user_id (ia w))
      in case ensureLink target w of
           (Inl err, w1) \<Rightarrow> (Some err, w1)
         | (Inr None, w1) \<Rightarrow> (None, w1)
         | (Inr (Some l), w1) \<Rightarrow>
             andThen (deferReply w1)
               (\<lambda>w2. try_catch
                  (case getFilter w2 of
                     (Inl err, w3) \<Rightarrow> (Some err, w3)
                   | (Inr None, w3) \<Rightarrow> (None, w3)
                   | (Inr (Some f), w3) \<Rightarrow>
                       rest f (l_gameName l) (l_tagLine l) (effectiveRegion e (Some l))
                         (effectiveShard e (Some l)) queue w3)
                  (\<lambda>err. editReply (Failed err))))"

definition mapStatsCommand ::
  "env \<Rightarrow> (world \<Rightarrow> (error + 'f option) \<times> world) \<Rightarrow> ('f \<Rightarrow> rest) \<Rightarrow> string option
     \<Rightarrow> string option \<Rightarrow> world \<Rightarrow> step" where
  "mapStatsCommand e getFilter rest user queue w =
     (let target = default_arg user (user_id (ia w))
      in case ensureLink target w of
           (Inl err, w1) \<Rightarrow> (Some err, w1)
         | (Inr None, w1) \<Rightarrow> (None, w1)
         | (Inr (Some l), w1) \<Rightarrow>
             andThen (deferReply w1)
               (\<lambda>w2. try_catch
                  (case getFilter w2 of
                     (Inl err, w3) \<Rightarrow> (Some err, w3)
                   | (Inr None, w3) \<Rightarrow> (None, w3)
                   | (Inr (Some f), w3) \<Rightarrow>
                       rest f (l_gameName l) (l_tagLine l) (effectiveRegion e (Some l))
                         (effectiveShard e (Some l)) queue w3)
                  (\<lambda>err. editReply (Failed err))))"

text \<open>
  In all four handlers the rest of the \<^verbatim>\<open>try\<close> block begins with the same two lookups,
  \<^verbatim>\<open>
  account = await getAccountByRiotId(gameName, tagLine, regionToUse);
  const matchIds = await getRecentMatchIdsByPuuid(account.puuid, shardToUse, 0, 10);
  \<close>
  with the count 10 in \<^verbatim>\<open>profile\<close>, 1 in \<^verbatim>\<open>lastmatch\<close> and 20 in the two statistics
  commands. \<open>lookups\<close> is that beginning, and \<open>k\<close> what follows it: loading the matches
  from the same shard, the summary and the reply. The name and the tag go into the URL
  and the player id into the cache key and the URL as strings, name before tag, and a
  conversion that throws does so before anything is requested.
\<close>

type_synonym continuation = "jsval \<Rightarrow> jsval list \<Rightarrow> string \<Rightarrow> string option \<Rightarrow> world \<Rightarrow> step"

definition lookups ::
  "env \<Rightarrow> (int \<Rightarrow> string) \<Rightarrow> remote \<Rightarrow> int \<Rightarrow> int \<Rightarrow> int \<Rightarrow> continuation \<Rightarrow> rest" where
  "lookups e num remote t t' count k gameName tagLine region shard queue w =
     (case toStr num gameName of
        Inl err \<Rightarrow> (Some err, w)
      | Inr g \<Rightarrow>
     (case toStr num tagLine of
        Inl err \<Rightarrow> (Some err, w)
      | Inr tg \<Rightarrow>
     (case getAccountByRiotId e remote g tg (Some region) of
        (r, evs) \<Rightarrow>
          (let w1 = w\<lparr>events := events w @ evs\<rparr>
           in case r of
                Inl err \<Rightarrow> (Some err, w1)
              | Inr account \<Rightarrow>
     (case getProp ''puuid'' account of
        Inl err \<Rightarrow> (Some err, w1)
      | Inr puuid \<Rightarrow>
     (case toStr num puuid of
        Inl err \<Rightarrow> (Some err, w1)
      | Inr p \<Rightarrow>
     (case getRecentMatchIdsByPuuid e remote t t' (cache w1) p shard 0 count of
        (r2, evs2, cache2) \<Rightarrow>
          (let w2 = w1\<lparr>events := events w1 @ evs2, cache := cache2\<rparr>
           in case r2 of
                Inl err \<Rightarrow> (Some err, w2)
              | Inr matchIds \<Rightarrow> k account matchIds shard queue w2))))))))"

text \<open>
  What the routing is stated with: the URL of the account lookup in a region and the URL
  of the match list on a shard, as the two templates of the source write them, and the
  continuation that does nothing, which leaves the requests of the two lookups as the
  only ones.
\<close>

definition accountUrl :: "string \<Rightarrow> string \<Rightarrow> string \<Rightarrow> string" where
  "accountUrl region gameName tagLine =
     ''https://'' @ region @ ''.api.riotgames.com/riot/account/v1/accounts/by-riot-id/''
       @ encodeURIComponent gameName @ ''/'' @ encodeURIComponent tagLine"

definition matchlistUrl :: "string \<Rightarrow> string \<Rightarrow> string" where
  "matchlistUrl shard puuid =
     ''https://'' @ shard @ ''.api.riotgames.com/val/match/v1/matchlists/by-puuid/'' @ puuid"

definition stop :: continuation where
  "stop account matchIds shard queue w = (None, w)"

section \<open>Concrete inputs\<close>

text \<open>
  A service that answers every request with 429, the first time with a hint of three
  seconds; a service whose match list has no \<^verbatim>\<open>history\<close> field; an environment that
  sets neither routing variable.
\<close>

definition always429 :: remote where
  "always429 url i =
     Responded \<lparr>status = 429, retryAfter = (if i = 0 then Some 3 else None),
       bodyText = Some ''slow down'', bodyJson = None\<rparr>"

definition noHistory :: remote where
  "noHistory url i =
     Responded \<lparr>status = 200, retryAfter = None, bodyText = None,
       bodyJson = Some (JObj [(''puuid'', JStr ''p1'')])\<rparr>"

definition env0 :: env where
  "env0 = \<lparr>env_RIOT_REGION = None, env_VAL_SHARD = None\<rparr>"

text \<open>
  Match records of the player \<open>p1\<close>: one that the player's team won, the same record
  without its team list, and one in which the player has no deaths and no agent.
\<close>

definition player1 :: player where
  "player1 =
     \<lparr>p_puuid = ''p1'', p_teamId = Some ''Red'', p_characterId = Some ''ADD6443A'',
      p_stats = Some \<lparr>kills = Some 201, deaths = Some 200, assists = Some 3\<rparr>\<rparr>"

definition match_won :: match where
  "match_won =
     \<lparr>matchInfo = Some \<lparr>gameMode = Some ''competitive'',
                         mapId = Some ''/Game/Maps/Ascent/Ascent''\<rparr>,
      players = Some [player1],
      teams = Some [\<lparr>t_teamId = Some ''Blue'', t_won = Some False\<rparr>,
                    \<lparr>t_teamId = Some ''Red'', t_won = Some True\<rparr>]\<rparr>"

definition match_noteams :: match where
  "match_noteams = match_won\<lparr>teams := None\<rparr>"

definition match_flawless :: match where
  "match_flawless =
     \<lparr>matchInfo = None,
      players = Some [\<lparr>p_puuid = ''p1'', p_teamId = None, p_characterId = None,
                       p_stats = Some \<lparr>kills = Some 7, deaths = None, assists = None\<rparr>\<rparr>],
      teams = Some []\<rparr>"

text \<open>
  An account service that knows every player as \<open>Nick#TAG\<close>; the state in which nobody
  is linked and the user \<open>u1\<close> has just invoked a command.
\<close>

definition accountOk :: remote where
  "accountOk url i =
     Responded \<lparr>status = 200, retryAfter = None, bodyText = None,
       bodyJson = Some (JObj [(''puuid'', JStr ''p1''), (''gameName'', JStr ''Nick''),
                              (''tagLine'', JStr ''TAG'')])\<rparr>"

definition fresh :: "string \<Rightarrow> interaction" where
  "fresh uid = \<lparr>user_id = uid, deferred = False, replied = False, shown = None\<rparr>"

definition world0 :: world where
  "world0 = \<lparr>links = Map.empty, ia = fresh ''u1'', cache = Map.empty, events = [],
               console = []\<rparr>"

text \<open>
  The state in which \<open>u1\<close> is linked to \<open>Nick#TAG\<close> on the shard \<open>na\<close> in the region
  \<open>americas\<close>; a continuation that shows the shard it was given; a rest of a handler
  that shows the region and the shard it was given; a filter step that finds nothing to
  filter by. No value converted to a string below is a number, and \<open>num0\<close> stands for
  the conversion of numbers.
\<close>

definition link0 :: link where
  "link0 = \<lparr>l_gameName = JStr ''Nick'', l_tagLine = JStr ''TAG'', l_shard = Some ''na'',
             l_region = Some ''americas'', l_lastLinkedAt = Some 5\<rparr>"

definition linked0 :: world where
  "linked0 = world0\<lparr>links := [''u1'' \<mapsto> link0]\<rparr>"

definition showShard :: continuation where
  "showShard account matchIds shard queue w = editReply (Other shard) w"

definition showRoute :: rest where
  "showRoute gameName tagLine region shard queue w = editReply (Other (region @ ''/'' @ shard)) w"

definition noFilter :: "world \<Rightarrow> (error + unit option) \<times> world" where
  "noFilter w = (Inr (Some ()), w)"

definition num0 :: "int \<Rightarrow> string" where
  "num0 n = ''0''"

section \<open>Facts about the helpers\<close>

lemma js_or_nonempty: "b \<noteq> [] \<Longrightarrow> js_or a b \<noteq> []"
  by (simp add: js_or_def split: option.splits)

section \<open>Properties of the cache\<close>

text \<open>
  C2. After \<open>set(k, v, ttl)\<close> at time \<open>t\<close>, a \<open>get(k)\<close> at any time up to the expiry
  instant \<open>t + ttl\<close> returns \<open>v\<close> and leaves the cache as it is; a \<open>get(k)\<close> after the
  expiry instant returns \<^verbatim>\<open>null\<close> and leaves the cache without an entry for \<open>k\<close>.
  \<open>set\<close> overwrites: the cache after it does not depend on what was stored under \<open>k\<close>
  before, and a \<open>set\<close> without a duration is a \<open>set\<close> for 60 seconds. Reads and writes of
  another key do not touch the entry of \<open>k\<close>.
\<close>

theorem C2_get_after_set:
  "(t' \<le> t + ttl \<longrightarrow>
      cache_get t' k (cache_set t k v (Some ttl) m) = (v, cache_set t k v (Some ttl) m))
   \<and> (t + ttl < t' \<longrightarrow>
      cache_get t' k (cache_set t k v (Some ttl) m) = (JNull, m(k := None)))
   \<and> cache_set t k v (Some ttl) (m(k := old)) = cache_set t k v (Some ttl) m
   \<and> cache_set t k v None m = cache_set t k v (Some 60000) m
   \<and> (k' \<noteq> k \<longrightarrow>
      snd (cache_get t' k' (cache_set t k v (Some ttl) m)) k = cache_set t k v (Some ttl) m k
      \<and> cache_set t' k' v' ttl' (cache_set t k v (Some ttl) m) k = cache_set t k v (Some ttl) m k)"
  by (auto simp: cache_get_def cache_set_def split: option.splits)

theorem C2_get_after_set_witness:
  "cache_get 1029 ''match:eu:m1'' (cache_set 1000 ''match:eu:m1'' (JStr ''x'') (Some 30) Map.empty)
     = (JStr ''x'', cache_set 1000 ''match:eu:m1'' (JStr ''x'') (Some 30) Map.empty)
   \<and> cache_get 1031 ''match:eu:m1'' (cache_set 1000 ''match:eu:m1'' (JStr ''x'') (Some 30) Map.empty)
     = (JNull, Map.empty)
   \<and> cache_set 1000 ''b'' JNull (Some 5) (cache_set 1000 ''a'' (JNum 1) (Some 30) Map.empty) ''a''
     = Some \<lparr>e_value = JNum 1, e_expires = 1030\<rparr>"
  using C2_get_after_set [of 1029 1000 30 "''match:eu:m1''" "JStr ''x''" Map.empty None "''b''" JNull "Some 5"]
    C2_get_after_set [of 1031 1000 30 "''match:eu:m1''" "JStr ''x''" Map.empty None "''b''" JNull "Some 5"]
    C2_get_after_set [of 1000 1000 30 "''a''" "JNum 1" Map.empty None "''b''" JNull "Some 5"]
  by (simp add: cache_set_def)

section \<open>Properties of the rate gate\<close>

lemma attempt_within:
  "t - lastRefill g \<le> refillMs \<Longrightarrow>
   attempt t g = (0 < tokens g, if 0 < tokens g then g\<lparr>tokens := tokens g - 1\<rparr> else g)"
  by (simp add: attempt_def refill_def Let_def)

lemma attempts_within:
  "\<forall>t\<in>set ts. t - lastRefill g \<le> refillMs \<Longrightarrow> 0 \<le> tokens g \<Longrightarrow>
   attempts ts g =
     (map (\<lambda>i. int i < tokens g) [0..<length ts],
      g\<lparr>tokens := max 0 (tokens g - int (length ts))\<rparr>)"
proof (induction ts arbitrary: g)
  case Nil
  then show ?case by simp
next
  case (Cons t ts)
  show ?case
  proof (cases "0 < tokens g")
    case True
    let ?g = "g\<lparr>tokens := tokens g - 1\<rparr>"
    have a: "attempt t g = (True, ?g)"
      using Cons.prems True by (simp add: attempt_within)
    have "attempts ts ?g = (map (\<lambda>i. int i < tokens ?g) [0..<length ts],
      ?g\<lparr>tokens := max 0 (tokens ?g - int (length ts))\<rparr>)"
      using Cons.prems True by (intro Cons.IH) auto
    then show ?thesis using a True
      by (auto simp: map_upt_Suc simp del: upt_Suc)
  next
    case False
    have a: "attempt t g = (False, g)"
      using Cons.prems False by (simp add: attempt_within)
    have "attempts ts g = (map (\<lambda>i. int i < tokens g) [0..<length ts],
      g\<lparr>tokens := max 0 (tokens g - int (length ts))\<rparr>)"
      using Cons.prems by (intro Cons.IH) auto
    then show ?thesis using a False Cons.prems(2)
      by (auto simp: map_upt_Suc simp del: upt_Suc)
  qed
qed

lemma attempts_refill:
  assumes "refillMs < t0 - lastRefill g0" and "\<forall>t\<in>set ts. t - t0 \<le> refillMs"
  shows "fst (attempts (t0 # ts) g0) = map (\<lambda>i. int i < capacity) [0..<Suc (length ts)]"
proof -
  let ?g = "\<lparr>tokens = capacity - 1, lastRefill = t0\<rparr>"
  have a: "attempt t0 g0 = (True, ?g)"
    using assms(1) by (simp add: attempt_def refill_def capacity_def Let_def)
  have "attempts ts ?g = (map (\<lambda>i. int i < tokens ?g) [0..<length ts],
      ?g\<lparr>tokens := max 0 (tokens ?g - int (length ts))\<rparr>)"
    using assms(2) by (intro attempts_within) (simp_all add: capacity_def)
  then show ?thesis using a
    by (auto simp: map_upt_Suc capacity_def simp del: upt_Suc)
qed

lemma count_below: "length (filter (\<lambda>r. r) (map (\<lambda>i. int i < k) [0..<n])) = min n (nat k)"
  by (induction n) auto

lemma not_attempt:
  "\<not> fst (attempt now g) \<Longrightarrow>
   tokens g \<le> 0 \<and> now - lastRefill g \<le> refillMs \<and> snd (attempt now g) = g"
  by (auto simp: attempt_def refill_def capacity_def Let_def split: if_splits)

lemma takeToken_general:
  "case takeToken lag now g of (fin, n, g') \<Rightarrow>
     now + 500 * int n \<le> fin \<and> fst (attempt fin g) \<and> g' = snd (attempt fin g)
     \<and> (n = 0 \<longleftrightarrow> fst (attempt now g))"
proof (induction lag now g rule: takeToken.induct)
  case (1 lag now g)
  show ?case
  proof (cases "fst (attempt now g)")
    case True
    then show ?thesis by (simp add: takeToken.simps[of lag now g])
  next
    case False
    then have g: "snd (attempt now g) = g"
      using not_attempt by blast
    obtain fin n g' where r: "takeToken lag (now + 500 + int (lag now)) g = (fin, n, g')"
      by (cases "takeToken lag (now + 500 + int (lag now)) g") auto
    have ih: "now + 500 + int (lag now) + 500 * int n \<le> fin \<and> fst (attempt fin g)
        \<and> g' = snd (attempt fin g)"
      using 1[OF False] r g by simp
    have "takeToken lag now g = (fin, Suc n, g')"
      using False g r by (simp add: takeToken.simps[of lag now g])
    then show ?thesis using ih False by simp
  qed
qed

lemma takeToken_exact:
  "case takeToken (\<lambda>t. 0) now g of (fin, n, g') \<Rightarrow>
     fin = now + 500 * int n \<and> (0 < n \<longrightarrow> \<not> fst (attempt (fin - 500) g))"
proof (induction "\<lambda>t::int. 0::nat" now g rule: takeToken.induct)
  case (1 now g)
  show ?case
  proof (cases "fst (attempt now g)")
    case True
    then show ?thesis by (simp add: takeToken.simps[of _ now g])
  next
    case False
    then have g: "snd (attempt now g) = g"
      using not_attempt by blast
    obtain fin n g' where r: "takeToken (\<lambda>t. 0) (now + 500) g = (fin, n, g')"
      by (cases "takeToken (\<lambda>t. 0) (now + 500) g") auto
    have ih: "fin = now + 500 + 500 * int n \<and> (0 < n \<longrightarrow> \<not> fst (attempt (fin - 500) g))"
      using 1[OF False] r g by auto
    have "takeToken (\<lambda>t. 0) now g = (fin, Suc n, g')"
      using False g r by (simp add: takeToken.simps[of _ now g])
    then show ?thesis using ih False by (cases n) auto
  qed
qed

lemma takeToken_empty:
  assumes "tokens h \<le> 0" and "now - lastRefill h \<le> refillMs"
  shows "case takeToken lag now h of (fin, n, g') \<Rightarrow>
           0 < n \<and> lastRefill h + refillMs < fin \<and> now + 500 * int n \<le> fin
           \<and> g' = \<lparr>tokens = capacity - 1, lastRefill = fin\<rparr>"
proof -
  obtain fin n g' where r: "takeToken lag now h = (fin, n, g')"
    by (cases "takeToken lag now h") auto
  have gen: "now + 500 * int n \<le> fin \<and> fst (attempt fin h) \<and> g' = snd (attempt fin h)
      \<and> (n = 0 \<longleftrightarrow> fst (attempt now h))"
    using takeToken_general[where lag=lag and now=now and g=h] r by simp
  have "\<not> fst (attempt now h)"
    using assms by (simp add: attempt_within)
  then have n: "0 < n" using gen by simp
  have late: "lastRefill h + refillMs < fin"
  proof (rule ccontr)
    assume "\<not> lastRefill h + refillMs < fin"
    then have "fin - lastRefill h \<le> refillMs" by simp
    then have "\<not> fst (attempt fin h)" using assms(1) by (simp add: attempt_within)
    then show False using gen by simp
  qed
  then have "snd (attempt fin h) = \<lparr>tokens = capacity - 1, lastRefill = fin\<rparr>"
    by (simp add: attempt_def refill_def capacity_def Let_def)
  then show ?thesis using r n late gen by simp
qed

lemma takeToken_empty_exact:
  assumes "tokens h \<le> 0" and "now - lastRefill h \<le> refillMs"
  shows "case takeToken (\<lambda>t. 0) now h of (fin, n, g') \<Rightarrow>
           fin = now + 500 * int n \<and> fin \<le> lastRefill h + refillMs + 500"
proof -
  obtain fin n g' where r: "takeToken (\<lambda>t. 0) now h = (fin, n, g')"
    by (cases "takeToken (\<lambda>t. 0) now h") auto
  have ex: "fin = now + 500 * int n \<and> (0 < n \<longrightarrow> \<not> fst (attempt (fin - 500) h))"
    using takeToken_exact[where now=now and g=h] r by auto
  have "0 < n"
    using takeToken_empty[OF assms, where lag="\<lambda>t. 0"] r by simp
  then have "\<not> fst (attempt (fin - 500) h)" using ex by blast
  then have "fin - 500 - lastRefill h \<le> refillMs" using not_attempt by blast
  then show ?thesis using r ex by simp
qed

text \<open>
  C1. A refill interval of the gate \<open>g\<close> is the time up to \<open>lastRefill g + refillMs\<close>:
  a pass at an instant \<open>t\<close> with \<open>t - lastRefill g \<le> refillMs\<close> does not refill. For
  every sequence of passes inside that interval, by any number of callers: exactly the
  first \<open>tokens g\<close> of them take a token without suspending, so at most \<open>capacity = 20\<close> do;
  every later one suspends. A call made inside the interval after the tokens are used
  up is suspended at least once and takes its token only after
  \<open>lastRefill g + refillMs\<close>, at the pass that refills the gate; each suspension lasts
  at least 500 ms, and with exact timers the call returns after a whole number of
  500 ms steps, no later than 500 ms after the boundary. No call is rejected: for every
  gate and every instant the call returns (\<open>takeToken\<close> is total) having taken a token.
  The same count holds for an interval from its start: when the pass at \<open>t0\<close> refills
  the gate and the passes \<open>us\<close> follow within \<open>refillMs\<close> of \<open>t0\<close>, exactly the first 20
  of \<open>t0 # us\<close> take a token.
\<close>

theorem C1_rate_gate:
  assumes "\<forall>t\<in>set ts. t - lastRefill g \<le> refillMs"
    and "0 \<le> tokens g" and "tokens g \<le> capacity"
    and "now - lastRefill g \<le> refillMs"
  shows "fst (attempts ts g) = map (\<lambda>i. int i < tokens g) [0..<length ts]
    \<and> length (filter (\<lambda>r. r) (fst (attempts ts g))) \<le> nat capacity
    \<and> (nat (tokens g) \<le> length ts \<longrightarrow>
        (case takeToken lag now (snd (attempts ts g)) of (fin, n, g') \<Rightarrow>
           0 < n \<and> lastRefill g + refillMs < fin \<and> now + 500 * int n \<le> fin
           \<and> g' = \<lparr>tokens = capacity - 1, lastRefill = fin\<rparr>)
        \<and> (case takeToken (\<lambda>t. 0) now (snd (attempts ts g)) of (fin, n, g') \<Rightarrow>
           fin = now + 500 * int n \<and> fin \<le> lastRefill g + refillMs + 500))
    \<and> (case takeToken lag now' h of (fin, n, g') \<Rightarrow>
          now' \<le> fin \<and> fst (attempt fin h) \<and> g' = snd (attempt fin h))
    \<and> (refillMs < t0 - lastRefill g0 \<and> (\<forall>t\<in>set us. t - t0 \<le> refillMs) \<longrightarrow>
          fst (attempts (t0 # us) g0) = map (\<lambda>i. int i < capacity) [0..<Suc (length us)])"
proof -
  have c5: "refillMs < t0 - lastRefill g0 \<and> (\<forall>t\<in>set us. t - t0 \<le> refillMs) \<longrightarrow>
          fst (attempts (t0 # us) g0) = map (\<lambda>i. int i < capacity) [0..<Suc (length us)]"
    using attempts_refill[of t0 g0 us] by blast
  have a: "attempts ts g = (map (\<lambda>i. int i < tokens g) [0..<length ts],
      g\<lparr>tokens := max 0 (tokens g - int (length ts))\<rparr>)"
    using assms(1,2) by (rule attempts_within)
  have c1: "fst (attempts ts g) = map (\<lambda>i. int i < tokens g) [0..<length ts]"
    using a by simp
  have c2: "length (filter (\<lambda>r. r) (fst (attempts ts g))) \<le> nat capacity"
    using assms(3) unfolding c1 count_below by simp
  have c3: "(case takeToken lag now (snd (attempts ts g)) of (fin, n, g') \<Rightarrow>
           0 < n \<and> lastRefill g + refillMs < fin \<and> now + 500 * int n \<le> fin
           \<and> g' = \<lparr>tokens = capacity - 1, lastRefill = fin\<rparr>)
        \<and> (case takeToken (\<lambda>t. 0) now (snd (attempts ts g)) of (fin, n, g') \<Rightarrow>
           fin = now + 500 * int n \<and> fin \<le> lastRefill g + refillMs + 500)"
    if "nat (tokens g) \<le> length ts"
  proof -
    let ?h = "snd (attempts ts g)"
    have h: "tokens ?h \<le> 0" "lastRefill ?h = lastRefill g"
      using a that by auto
    then have n: "now - lastRefill ?h \<le> refillMs" using assms(4) by simp
    show ?thesis
      using takeToken_empty[OF h(1) n, where lag=lag] takeToken_empty_exact[OF h(1) n] h(2)
      by simp
  qed
  have c4: "case takeToken lag now' h of (fin, n, g') \<Rightarrow>
          now' \<le> fin \<and> fst (attempt fin h) \<and> g' = snd (attempt fin h)"
    using takeToken_general[where lag=lag and now=now' and g=h] by (auto split: prod.splits)
  show ?thesis using c1 c2 c3 c4 c5 by blast
qed

theorem C1_rate_gate_witness:
  "fst (attempts (replicate 20 5 @ [6, 7]) \<lparr>tokens = 20, lastRefill = 0\<rparr>)
     = map (\<lambda>i. int i < 20) [0..<22]
   \<and> (case takeToken (\<lambda>t. 3) 7000 (snd (attempts (replicate 20 5 @ [6, 7]) \<lparr>tokens = 20, lastRefill = 0\<rparr>))
        of (fin, n, g') \<Rightarrow> 0 < n \<and> 10000 < fin \<and> 7000 + 500 * int n \<le> fin
             \<and> g' = \<lparr>tokens = 19, lastRefill = fin\<rparr>)
   \<and> (case takeToken (\<lambda>t. 0) 7000 (snd (attempts (replicate 20 5 @ [6, 7]) \<lparr>tokens = 20, lastRefill = 0\<rparr>))
        of (fin, n, g') \<Rightarrow> fin = 7000 + 500 * int n \<and> fin \<le> 10500)"
  using C1_rate_gate [where ts="replicate 20 5 @ [6, 7]" and g="\<lparr>tokens = 20, lastRefill = 0\<rparr>"
      and now=7000 and lag="\<lambda>t. 3" and now'=0 and h="\<lparr>tokens = 20, lastRefill = 0\<rparr>"]
  by (simp add: capacity_def refillMs_def del: attempts.simps upt_rec_numeral)

section \<open>Properties of the identifier parser\<close>

lemma lastIndexOf_notin: "c \<notin> set s \<Longrightarrow> lastIndexOf s c = - 1"
  by (induction s) auto

lemma lastIndexOf_last: "c \<notin> set b \<Longrightarrow> lastIndexOf (a @ c # b) c = int (length a)"
  by (induction a) (auto simp: lastIndexOf_notin)

lemma slice_prefix: "slice 0 (int (length a)) (a @ c # b) = a"
  by (simp add: slice_def slice_index_def)

lemma slice_suffix: "slice (int (length a) + 1) (int (length (a @ c # b))) (a @ c # b) = b"
  by (simp add: slice_def slice_index_def nat_add_distrib)

lemma parse_split:
  "CHR ''#'' \<notin> set b \<Longrightarrow> parseRiotId (a @ CHR ''#'' # b) =
     (if trim a = [] \<or> trim b = [] then Inl RiotIdFormat else Inr (trim a, trim b))"
  using slice_prefix[of a "CHR ''#''" b] slice_suffix[of a "CHR ''#''" b]
  by (simp add: parseRiotId_def lastIndexOf_last Let_def del: length_append)

lemma strip_split:
  "\<exists>us. set us \<subseteq> set ws \<and> s = concat us @ strip ws s"
proof (induction ws s rule: strip.induct)
  case (1 ws s)
  show ?case
  proof (cases "find (\<lambda>w. w \<noteq> [] \<and> take (length w) s = w) ws")
    case None
    then have "strip ws s = s" by (simp add: strip.simps[of ws s])
    then have "set [] \<subseteq> set ws \<and> s = concat [] @ strip ws s" by simp
    then show ?thesis by blast
  next
    case (Some w)
    then have w: "w \<in> set ws" "take (length w) s = w"
      by (auto simp: find_Some_iff)
    obtain us where us: "set us \<subseteq> set ws" "drop (length w) s = concat us @ strip ws (drop (length w) s)"
      using 1[OF Some] by blast
    have "strip ws s = strip ws (drop (length w) s)" using Some by (simp add: strip.simps[of ws s])
    moreover have "s = w @ drop (length w) s" using w(2) by (metis append_take_drop_id)
    ultimately have "set (w # us) \<subseteq> set ws \<and> s = concat (w # us) @ strip ws s"
      using us w(1) by simp
    then show ?thesis by blast
  qed
qed

lemma strip_done:
  "w \<in> set ws \<Longrightarrow> w \<noteq> [] \<Longrightarrow> strip ws s \<noteq> w @ p"
proof (induction ws s rule: strip.induct)
  case (1 ws s)
  show ?case
  proof (cases "find (\<lambda>w. w \<noteq> [] \<and> take (length w) s = w) ws")
    case None
    then have s: "strip ws s = s" by (simp add: strip.simps[of ws s])
    have "\<not> (w \<noteq> [] \<and> take (length w) s = w)"
      using None 1(2) by (auto simp: find_None_iff)
    then show ?thesis using 1(3) s by auto
  next
    case (Some v)
    have "strip ws s = strip ws (drop (length v) s)" using Some by (simp add: strip.simps[of ws s])
    then show ?thesis using 1(1)[OF Some 1(2,3)] by simp
  qed
qed


lemma white_space_nonempty: "w \<in> set white_space \<Longrightarrow> w \<noteq> []"
  by (auto simp: white_space_def)

lemma trim_split:
  "\<exists>us vs. set us \<subseteq> set white_space \<and> set vs \<subseteq> set white_space
     \<and> s = concat us @ trim s @ concat vs"
proof -
  let ?s1 = "strip white_space s"
  obtain us where us: "set us \<subseteq> set white_space" "s = concat us @ ?s1"
    using strip_split[of white_space s] by blast
  obtain rs where rs: "set rs \<subseteq> set (map rev white_space)"
      "rev ?s1 = concat rs @ strip (map rev white_space) (rev ?s1)"
    using strip_split[of "map rev white_space" "rev ?s1"] by blast
  have "rev (rev ?s1) = rev (concat rs @ strip (map rev white_space) (rev ?s1))"
    using rs(2) by simp
  then have "?s1 = trim s @ concat (rev (map rev rs))"
    by (simp add: trim_def rev_concat rev_map)
  moreover have "set (rev (map rev rs)) \<subseteq> set white_space"
    using rs(1) by auto
  ultimately have "set us \<subseteq> set white_space \<and> set (rev (map rev rs)) \<subseteq> set white_space
     \<and> s = concat us @ trim s @ concat (rev (map rev rs))"
    using us by simp
  then show ?thesis by blast
qed

lemma trim_done:
  assumes "w \<in> set white_space"
  shows "trim s \<noteq> w @ p \<and> trim s \<noteq> p @ w"
proof -
  let ?s1 = "strip white_space s"
  have n: "w \<noteq> []" using assms by (rule white_space_nonempty)
  have rear: "trim s \<noteq> p @ w"
  proof
    assume "trim s = p @ w"
    then have "rev (trim s) = rev w @ rev p" by simp
    then have "strip (map rev white_space) (rev ?s1) = rev w @ rev p"
      by (simp add: trim_def)
    moreover have "rev w \<in> set (map rev white_space)" "rev w \<noteq> []"
      using assms n by auto
    ultimately show False using strip_done by blast
  qed
  have lead: "trim s \<noteq> w @ p"
  proof
    assume a: "trim s = w @ p"
    obtain rs where "rev ?s1 = concat rs @ strip (map rev white_space) (rev ?s1)"
      using strip_split[of "map rev white_space" "rev ?s1"] by blast
    then have "rev (rev ?s1) = rev (concat rs @ strip (map rev white_space) (rev ?s1))"
      by simp
    then have "?s1 = trim s @ rev (concat rs)"
      by (simp add: trim_def)
    then have "?s1 = w @ (p @ rev (concat rs))" using a by simp
    then show False using strip_done[OF assms n] by blast
  qed
  show ?thesis using lead rear by simp
qed

text \<open>
  C5. \<open>parseRiotId\<close> splits at the last \<open>#\<close> and trims both halves:
  \<open>Nick#TAG\<close> gives the name \<open>Nick\<close> and the tag \<open>TAG\<close>; an input without \<open>#\<close>, such as
  \<open>NoSeparator\<close>, is a parse error; an input \<open>a#b\<close> with no \<open>#\<close> in \<open>b\<close> is a parse error
  when \<open>a\<close> or \<open>b\<close> is empty after trimming, as \<open>#TAG\<close>, \<open>Nick#\<close> and \<open>Nick#\<close> followed by
  a no-break space are, and gives the trimmed \<open>a\<close> and \<open>b\<close> otherwise. Trimming is what
  the word says: \<open>x\<close> is \<open>trim x\<close> with white space before and after it, and \<open>trim x\<close>
  neither begins nor ends with white space.
\<close>

theorem C5_parseRiotId:
  "parseRiotId ''Nick#TAG'' = Inr (''Nick'', ''TAG'')
   \<and> parseRiotId ''NoSeparator'' = Inl RiotIdFormatHint
   \<and> parseRiotId ''#TAG'' = Inl RiotIdFormat
   \<and> parseRiotId ''Nick#'' = Inl RiotIdFormat
   \<and> parseRiotId (''Nick#'' @ [CHR 0xC2, CHR 0xA0]) = Inl RiotIdFormat
   \<and> (CHR ''#'' \<notin> set s \<longrightarrow> parseRiotId s = Inl RiotIdFormatHint)
   \<and> (CHR ''#'' \<notin> set b \<longrightarrow>
        parseRiotId (a @ CHR ''#'' # b) =
          (if trim a = [] \<or> trim b = [] then Inl RiotIdFormat else Inr (trim a, trim b)))
   \<and> (\<exists>us vs. set us \<subseteq> set white_space \<and> set vs \<subseteq> set white_space
         \<and> x = concat us @ trim x @ concat vs)
   \<and> (w \<in> set white_space \<longrightarrow> trim x \<noteq> w @ p \<and> trim x \<noteq> p @ w)"
proof -
  have e: "parseRiotId ''Nick#TAG'' = Inr (''Nick'', ''TAG'')"
      "parseRiotId ''NoSeparator'' = Inl RiotIdFormatHint"
      "parseRiotId ''#TAG'' = Inl RiotIdFormat"
      "parseRiotId ''Nick#'' = Inl RiotIdFormat"
      "parseRiotId (''Nick#'' @ [CHR 0xC2, CHR 0xA0]) = Inl RiotIdFormat"
    by (simp_all add: parseRiotId_def slice_def slice_index_def trim_def strip.simps white_space_def)
  have n: "CHR ''#'' \<notin> set s \<longrightarrow> parseRiotId s = Inl RiotIdFormatHint"
    by (simp add: parseRiotId_def lastIndexOf_notin)
  show ?thesis using e n parse_split[of b a] trim_split[of x] trim_done[of w x p] by blast
qed

theorem C5_parseRiotId_witness:
  "parseRiotId ''Riot Games'' = Inl RiotIdFormatHint
   \<and> parseRiotId ('' My #1 Nick # EUW'' @ [CHR 0xE2, CHR 0x80, CHR 0x83]) = Inr (''My #1 Nick'', ''EUW'')
   \<and> parseRiotId ([CHR 0xC2, CHR 0xA0] @ '' #EUW'') = Inl RiotIdFormat
   \<and> trim ('' EUW'' @ [CHR 0xE2, CHR 0x80, CHR 0x83]) \<noteq> ''EUW'' @ [CHR 0xE2, CHR 0x80, CHR 0x83]
   \<and> trim ('' EUW'' @ [CHR 0xE2, CHR 0x80, CHR 0x83]) \<noteq> ''  EUW''"
proof -
  have m: "[CHR 0xE2, CHR 0x80, CHR 0x83] \<in> set white_space" "'' '' \<in> set white_space"
    by (simp_all add: white_space_def)
  have t: "trim ('' EUW'' @ [CHR 0xE2, CHR 0x80, CHR 0x83]) = ''EUW''"
      "trim '' My #1 Nick '' = ''My #1 Nick''" "trim ([CHR 0xC2, CHR 0xA0] @ '' '') = []"
    by (simp_all add: trim_def strip.simps white_space_def)
  show ?thesis
    using C5_parseRiotId [where s="''Riot Games''" and b="'' EUW'' @ [CHR 0xE2, CHR 0x80, CHR 0x83]"
        and a="'' My #1 Nick ''" and x="'' EUW'' @ [CHR 0xE2, CHR 0x80, CHR 0x83]"
        and w="[CHR 0xE2, CHR 0x80, CHR 0x83]" and p="''EUW''"]
      C5_parseRiotId [where s="''Riot Games''" and b="''EUW''" and a="[CHR 0xC2, CHR 0xA0] @ '' ''"
        and x="'' EUW'' @ [CHR 0xE2, CHR 0x80, CHR 0x83]" and w="'' ''" and p="'' EUW''"]
      m t
    by simp
qed

section \<open>Properties of the remote API client\<close>

lemma riotRequest_last:
  "\<not> (rate_limited (remote url i) \<and> 0 < retry) \<Longrightarrow>
   riotRequest remote url i retry = (outcome_of (remote url i), [TakeToken, Fetch url])"
  by (subst riotRequest.simps)
     (auto simp: rate_limited_def outcome_of_def split: fetched.splits)

lemma riotRequest_again:
  "rate_limited (remote url i) \<Longrightarrow> 0 < retry \<Longrightarrow>
   riotRequest remote url i retry =
     (fst (riotRequest remote url (Suc i) (retry - 1)),
      [TakeToken, Fetch url, Sleep (backoff_of (remote url i))]
        @ snd (riotRequest remote url (Suc i) (retry - 1)))"
  by (subst riotRequest.simps)
     (auto simp: rate_limited_def backoff_of_def split: fetched.splits prod.splits)

lemma riotRequest_trace:
  "riotRequest remote url i retry =
     (outcome_of (remote url (i + retries remote url i retry)),
      concat (map (\<lambda>j. [TakeToken, Fetch url, Sleep (backoff_of (remote url j))])
                  [i..<i + retries remote url i retry])
      @ [TakeToken, Fetch url])"
proof (induction retry arbitrary: i)
  case 0
  then show ?case by (simp add: riotRequest_last retries_def)
next
  case (Suc r)
  show ?case
  proof (cases "rate_limited (remote url i)")
    case False
    then have "retries remote url i (Suc r) = 0"
      by (simp add: retries_def upt_conv_Cons del: upt_Suc)
    then show ?thesis using False by (simp add: riotRequest_last)
  next
    case True
    then have k: "retries remote url i (Suc r) = Suc (retries remote url (Suc i) r)"
      by (simp add: retries_def upt_conv_Cons del: upt_Suc)
    show ?thesis
      using True by (simp add: riotRequest_again Suc.IH k upt_conv_Cons del: upt_Suc)
  qed
qed

lemma retries_le: "retries remote url i retry \<le> retry"
  unfolding retries_def using length_takeWhile_le[of _ "[i..<i + retry]"] by simp

lemma retries_all:
  assumes "j < retries remote url i retry"
  shows "rate_limited (remote url (i + j))"
proof -
  let ?P = "\<lambda>j. rate_limited (remote url j)"
  let ?xs = "[i..<i + retry]"
  have j: "j < length (takeWhile ?P ?xs)" using assms by (simp add: retries_def)
  then have "takeWhile ?P ?xs ! j \<in> set (takeWhile ?P ?xs)" by simp
  then have "?P (takeWhile ?P ?xs ! j)" by (rule set_takeWhileD[THEN conjunct2])
  moreover have "takeWhile ?P ?xs ! j = ?xs ! j" using j by (rule takeWhile_nth)
  moreover have "j < retry" using j length_takeWhile_le[of ?P ?xs] by simp
  ultimately show ?thesis by simp
qed

lemma retries_stop:
  assumes "retries remote url i retry < retry"
  shows "\<not> rate_limited (remote url (i + retries remote url i retry))"
proof -
  let ?P = "\<lambda>j. rate_limited (remote url j)"
  let ?xs = "[i..<i + retry]"
  have "length (takeWhile ?P ?xs) < length ?xs" using assms by (simp add: retries_def)
  then have "\<not> ?P (?xs ! length (takeWhile ?P ?xs))" by (rule nth_length_takeWhile)
  then show ?thesis using assms by (simp add: retries_def)
qed

text \<open>
  C3. A call of \<open>riotRequest\<close> with retry budget \<open>retry\<close> fetches \<open>k + 1\<close> times, where
  \<open>k \<le> retry\<close> is the number of answers with status 429 it meets in a row: every fetch
  that is retried was answered 429, the fetch after it waits the hint of that answer
  (1000 ms when the header is absent), and the first answer that is not 429, or the
  answer to the last fetch the budget allows, settles the call. Any other answer ends
  the call at once with no sleep and no further fetch: a status outside 200..299 as the
  failure that carries the status and the body text, a rejected fetch as that failure.
  The budget of the callers is 2, so at most three fetches.
\<close>

theorem C3_riotRequest:
  "riotRequest remote url i retry =
     (outcome_of (remote url (i + retries remote url i retry)),
      concat (map (\<lambda>j. [TakeToken, Fetch url, Sleep (backoff_of (remote url j))])
                  [i..<i + retries remote url i retry])
      @ [TakeToken, Fetch url])
   \<and> retries remote url i retry \<le> retry
   \<and> (\<forall>j. j < retries remote url i retry \<longrightarrow> rate_limited (remote url (i + j)))
   \<and> (retries remote url i retry < retry \<longrightarrow>
        \<not> rate_limited (remote url (i + retries remote url i retry)))
   \<and> (\<not> rate_limited (remote url i) \<longrightarrow>
        riotRequest remote url i retry = (outcome_of (remote url i), [TakeToken, Fetch url]))
   \<and> rate_limited (Responded res) = (status res = 429)
   \<and> backoff_of (Responded res) = (case retryAfter res of None \<Rightarrow> 1000 | Some n \<Rightarrow> n * 1000)
   \<and> (\<not> ok res \<longrightarrow>
        outcome_of (Responded res) =
          Inl (RiotHttp (status res) (case bodyText res of None \<Rightarrow> [] | Some b \<Rightarrow> b)))
   \<and> outcome_of Rejected = Inl FetchFailed"
proof -
  have "backoff_of (Responded res) = (case retryAfter res of None \<Rightarrow> 1000 | Some n \<Rightarrow> n * 1000)"
    by (simp add: backoff_of_def retryAfterMs_def split: option.splits)
  moreover have "\<not> ok res \<longrightarrow> outcome_of (Responded res) =
          Inl (RiotHttp (status res) (case bodyText res of None \<Rightarrow> [] | Some b \<Rightarrow> b))"
    by (simp add: outcome_of_def settle_def)
  moreover have "rate_limited (Responded res) = (status res = 429)"
    "outcome_of Rejected = Inl FetchFailed"
    by (simp_all add: rate_limited_def outcome_of_def)
  moreover have "\<not> rate_limited (remote url i) \<longrightarrow>
        riotRequest remote url i retry = (outcome_of (remote url i), [TakeToken, Fetch url])"
    by (simp add: riotRequest_last)
  ultimately show ?thesis
    using riotRequest_trace[of remote url i retry] retries_le[of remote url i retry]
      retries_all[of _ remote url i retry] retries_stop[of remote url i retry]
    by blast
qed

theorem C3_riotRequest_witness:
  "riotRequest always429 ''u'' 0 2 =
     (Inl (RiotHttp 429 ''slow down''),
      [TakeToken, Fetch ''u'', Sleep 3000, TakeToken, Fetch ''u'', Sleep 1000, TakeToken, Fetch ''u''])"
proof -
  have r: "retries always429 ''u'' 0 2 = 2"
    by (simp add: retries_def always429_def rate_limited_def upt_conv_Cons)
  show ?thesis
  using C3_riotRequest[of always429 "''u''" 0 2 "\<lparr>status = 429, retryAfter = None,
       bodyText = Some ''slow down'', bodyJson = None\<rparr>"]
  apply (simp add: r)
  apply (simp add: always429_def upt_conv_Cons outcome_of_def settle_def ok_def backoff_of_def retryAfterMs_def)
  done
qed

section \<open>Properties of the match aggregator\<close>

lemma sum_Map_set:
  "sum_list (map snd (Map_set key (Suc (or0 (Map_get m key))) m)) = Suc (sum_list (map snd m))"
  by (induction m) (auto simp: Map_get_def or0_def)

lemma keys_Map_set: "fst ` set (Map_set key v m) = insert key (fst ` set m)"
  by (induction key v m rule: Map_set.induct) auto

lemma step_total:
  "total (count_match unicode puuid modeFilter acc m) = total acc + total (count_match unicode puuid modeFilter tally0 m)"
  "wins (count_match unicode puuid modeFilter acc m) = wins acc + wins (count_match unicode puuid modeFilter tally0 m)"
  "sum_k (count_match unicode puuid modeFilter acc m) = sum_k acc + sum_k (count_match unicode puuid modeFilter tally0 m)"
  "sum_d (count_match unicode puuid modeFilter acc m) = sum_d acc + sum_d (count_match unicode puuid modeFilter tally0 m)"
  by (auto simp: count_match_def tally0_def Let_def split: option.splits)

lemma foldl_total:
  "total (foldl (count_match unicode puuid modeFilter) acc ms)
     = total acc + total (foldl (count_match unicode puuid modeFilter) tally0 ms)"
proof (induction ms arbitrary: acc)
  case Nil
  then show ?case by (simp add: tally0_def)
next
  case (Cons m ms)
  show ?case
    using Cons.IH[of "count_match unicode puuid modeFilter acc m"]
      Cons.IH[of "count_match unicode puuid modeFilter tally0 m"]
      step_total(1)[of unicode puuid modeFilter acc m]
    by simp
qed

lemma foldl_wins:
  "wins (foldl (count_match unicode puuid modeFilter) acc ms)
     = wins acc + wins (foldl (count_match unicode puuid modeFilter) tally0 ms)"
proof (induction ms arbitrary: acc)
  case Nil
  then show ?case by (simp add: tally0_def)
next
  case (Cons m ms)
  show ?case
    using Cons.IH[of "count_match unicode puuid modeFilter acc m"]
      Cons.IH[of "count_match unicode puuid modeFilter tally0 m"]
      step_total(2)[of unicode puuid modeFilter acc m]
    by simp
qed

lemma agg_total: "total (aggregateRecentStats unicode puuid ms mf) = total (foldl (count_match unicode puuid mf) tally0 ms)"
  "wins (aggregateRecentStats unicode puuid ms mf) = wins (foldl (count_match unicode puuid mf) tally0 ms)"
  "perAgent (aggregateRecentStats unicode puuid ms mf) = perAgent (foldl (count_match unicode puuid mf) tally0 ms)"
  "perMap (aggregateRecentStats unicode puuid ms mf) = perMap (foldl (count_match unicode puuid mf) tally0 ms)"
  "sum_d (aggregateRecentStats unicode puuid ms mf) = sum_d (foldl (count_match unicode puuid mf) tally0 ms)"
  "sum_k (aggregateRecentStats unicode puuid ms mf) = sum_k (foldl (count_match unicode puuid mf) tally0 ms)"
  by (simp_all add: aggregateRecentStats_def Let_def tally.defs summary.defs)

lemma agg_insert:
  "total (aggregateRecentStats unicode puuid (ms1 @ m # ms2) mf)
     = total (aggregateRecentStats unicode puuid (ms1 @ ms2) mf) + total (count_match unicode puuid mf tally0 m)"
  "wins (aggregateRecentStats unicode puuid (ms1 @ m # ms2) mf)
     = wins (aggregateRecentStats unicode puuid (ms1 @ ms2) mf) + wins (count_match unicode puuid mf tally0 m)"
proof -
  let ?f = "count_match unicode puuid mf"
  have "total (foldl ?f tally0 (ms1 @ m # ms2))
      = total (foldl ?f tally0 ms1) + total (?f tally0 m) + total (foldl ?f tally0 ms2)"
    using foldl_total[of unicode puuid mf "?f (foldl ?f tally0 ms1) m" ms2]
      step_total(1)[of unicode puuid mf "foldl ?f tally0 ms1" m]
    by simp
  moreover have "total (foldl ?f tally0 (ms1 @ ms2))
      = total (foldl ?f tally0 ms1) + total (foldl ?f tally0 ms2)"
    using foldl_total[of unicode puuid mf "foldl ?f tally0 ms1" ms2] by simp
  ultimately show "total (aggregateRecentStats unicode puuid (ms1 @ m # ms2) mf)
     = total (aggregateRecentStats unicode puuid (ms1 @ ms2) mf) + total (count_match unicode puuid mf tally0 m)"
    by (simp add: agg_total)
  have "wins (foldl ?f tally0 (ms1 @ m # ms2))
      = wins (foldl ?f tally0 ms1) + wins (?f tally0 m) + wins (foldl ?f tally0 ms2)"
    using foldl_wins[of unicode puuid mf "?f (foldl ?f tally0 ms1) m" ms2]
      step_total(2)[of unicode puuid mf "foldl ?f tally0 ms1" m]
    by simp
  moreover have "wins (foldl ?f tally0 (ms1 @ ms2))
      = wins (foldl ?f tally0 ms1) + wins (foldl ?f tally0 ms2)"
    using foldl_wins[of unicode puuid mf "foldl ?f tally0 ms1" ms2] by simp
  ultimately show "wins (aggregateRecentStats unicode puuid (ms1 @ m # ms2) mf)
     = wins (aggregateRecentStats unicode puuid (ms1 @ ms2) mf) + wins (count_match unicode puuid mf tally0 m)"
    by (simp add: agg_total)
qed

lemma bits_upper: "n < 2 ^ bits n"
proof (induction n rule: bits.induct)
  case (1 n)
  show ?case
  proof (cases "n = 0")
    case True
    then show ?thesis by (simp add: bits.simps)
  next
    case False
    then have "n div 2 < 2 ^ bits (n div 2)" using 1 by simp
    then have "n < 2 * 2 ^ bits (n div 2)" by linarith
    then show ?thesis using False by (simp add: bits.simps[of n])
  qed
qed

lemma bits_lower: "0 < n \<Longrightarrow> 2 ^ bits n \<le> 2 * n"
proof (induction n rule: bits.induct)
  case (1 n)
  show ?case
  proof (cases "n div 2 = 0")
    case True
    then have "n = 1" using 1(2) by linarith
    then show ?thesis by (simp add: bits.simps[of "Suc 0"] bits.simps[of 0])
  next
    case False
    then have "2 ^ bits (n div 2) \<le> 2 * (n div 2)" using 1 by simp
    also have "\<dots> \<le> n" by simp
    finally show ?thesis using 1(2) by (simp add: bits.simps[of n])
  qed
qed

lemma shift_lower:
  assumes "0 < k" and "0 < d" and "bits k \<le> 52 + bits d"
  shows "2 ^ 52 * d \<le> k * 2 ^ shift k d"
proof (cases "2 ^ 52 * d \<le> k * 2 ^ (52 + bits d - bits k)")
  case True
  then show ?thesis by (simp add: shift_def)
next
  case False
  let ?t = "52 + bits d - bits k"
  have "2 ^ 52 * d \<le> 2 ^ 52 * 2 ^ bits d"
    using bits_upper[of d] by simp
  also have "\<dots> = 2 ^ bits k * 2 ^ ?t"
  proof -
    have "bits k + ?t = 52 + bits d" using assms(3) by simp
    then show ?thesis by (simp only: flip: power_add)
  qed
  also have "\<dots> \<le> (2 * k) * 2 ^ ?t"
    using bits_lower[OF assms(1)] by (rule mult_le_mono1)
  also have "\<dots> = k * 2 ^ (?t + 1)" by simp
  finally show ?thesis using False by (simp add: shift_def)
qed

lemma significand_near:
  assumes "0 < d"
  shows "2 * (significand k d * d) \<le> 2 * (k * 2 ^ shift k d) + d
    \<and> 2 * (k * 2 ^ shift k d) \<le> 2 * (significand k d * d) + d"
proof -
  define p where "p = k * 2 ^ shift k d"
  define q where "q = p div d"
  define r where "r = p mod d"
  define qd where "qd = q * d"
  have p: "p = qd + r" by (simp add: q_def r_def qd_def)
  have r: "r < d" using assms by (simp add: r_def)
  show ?thesis
  proof (cases "d < 2 * r \<or> (2 * r = d \<and> odd q)")
    case True
    then have "significand k d = q + 1"
      by (simp add: significand_def Let_def p_def q_def r_def)
    then have m: "significand k d * d = qd + d" by (simp add: qd_def)
    have "d \<le> 2 * r" using True by auto
    then show ?thesis unfolding m p_def[symmetric] using p r by arith
  next
    case False
    then have "significand k d = q"
      by (simp add: significand_def Let_def p_def q_def r_def)
    then have m: "significand k d * d = qd" by (simp add: qd_def)
    have "2 * r \<le> d" using False by auto
    then show ?thesis unfolding m p_def[symmetric] using p r by arith
  qed
qed

lemma toFixed2_bounds:
  assumes "0 < k"
  shows "2 * (toFixed2 k d * 2 ^ shift k d) \<le> 200 * significand k d + 2 ^ shift k d
    \<and> 200 * significand k d + 2 ^ shift k d < 2 * (toFixed2 k d * 2 ^ shift k d) + 2 * 2 ^ shift k d"
proof -
  define P where "P = (2::nat) ^ shift k d"
  define a where "a = 200 * significand k d + P"
  have P: "0 < P" by (simp add: P_def)
  have n: "toFixed2 k d = a div (2 * P)" using assms by (simp add: toFixed2_def a_def P_def)
  have "a div (2 * P) * (2 * P) \<le> a" by simp
  moreover have "a < 2 * P + a div (2 * P) * (2 * P)"
    using P by (intro dividend_less_div_times) simp
  ultimately show ?thesis unfolding n P_def[symmetric] a_def[symmetric]
    by (simp add: algebra_simps)
qed

lemma toFixed2_nearest:
  assumes k: "k < 2 ^ 45" and d: "0 < d"
  shows "200 * k \<le> 2 * (toFixed2 k d * d) + d \<and> 2 * (toFixed2 k d * d) \<le> 200 * k + d"
proof (cases "k = 0")
  case True
  then show ?thesis by (simp add: toFixed2_def)
next
  case False
  then have k0: "0 < k" by simp
  define P where "P = (2::nat) ^ shift k d"
  define M where "M = significand k d"
  define n where "n = toFixed2 k d"
  have "k < 2 ^ bits k \<Longrightarrow> 45 < bits k \<Longrightarrow> False"
  proof -
    assume "45 < bits k"
    then have "(2::nat) ^ 46 \<le> 2 ^ bits k" by (intro power_increasing) auto
    then have "(2::nat) ^ 46 \<le> 2 * k" using bits_lower[OF k0] by linarith
    then show False using k by simp
  qed
  then have "bits k \<le> 45" using bits_upper[of k] by (meson not_le)
  then have bk: "bits k \<le> 52 + bits d" by simp
  define c where "c = (2::nat) ^ 52"
  have low: "c * d \<le> k * P" unfolding P_def c_def using k0 d bk by (rule shift_lower)
  have "100 * k < c" using k by (simp add: c_def)
  then have "(100 * k) * d < c * d" using d by (rule mult_less_mono1)
  moreover have "(100 * k) * d = (100 * d) * k" by simp
  moreover have "k * P = P * k" by simp
  ultimately have "(100 * d) * k < P * k" using low by linarith
  then have E: "100 * d < P" by simp
  have AB: "2 * (M * d) \<le> 2 * (k * P) + d \<and> 2 * (k * P) \<le> 2 * (M * d) + d"
    unfolding M_def P_def using d by (rule significand_near)
  have CD: "2 * (n * P) \<le> 200 * M + P \<and> 200 * M + P < 2 * (n * P) + 2 * P"
    unfolding M_def P_def n_def using k0 by (rule toFixed2_bounds)
  have C: "2 * (n * P * d) \<le> 200 * (M * d) + P * d"
  proof -
    have "(2 * (n * P)) * d \<le> (200 * M + P) * d" using CD by (intro mult_le_mono1) simp
    then show ?thesis by (simp add: algebra_simps)
  qed
  have D: "200 * (M * d) + P * d < 2 * (n * P * d) + 2 * (P * d)"
  proof -
    have "(200 * M + P) * d < (2 * (n * P) + 2 * P) * d" using CD d by simp
    then show ?thesis by (simp add: algebra_simps)
  qed
  have g1: "200 * k \<le> 2 * (n * d) + d"
  proof (rule ccontr)
    assume "\<not> 200 * k \<le> 2 * (n * d) + d"
    then have "2 * (n * d) + d + 1 \<le> 200 * k" by simp
    then have "(2 * (n * d) + d + 1) * P \<le> (200 * k) * P" by (rule mult_le_mono1)
    then have "2 * (n * P * d) + P * d + P \<le> 200 * (k * P)" by (simp add: algebra_simps)
    then show False using AB D E by linarith
  qed
  have g2: "2 * (n * d) \<le> 200 * k + d"
  proof (rule ccontr)
    assume "\<not> 2 * (n * d) \<le> 200 * k + d"
    then have "200 * k + d + 1 \<le> 2 * (n * d)" by simp
    then have "(200 * k + d + 1) * P \<le> (2 * (n * d)) * P" by (rule mult_le_mono1)
    then have "200 * (k * P) + P * d + P \<le> 2 * (n * P * d)" by (simp add: algebra_simps)
    then show False using AB C E by linarith
  qed
  show ?thesis using g1 g2 by (simp add: n_def)
qed


text \<open>
  C6. Whatever the match list and the filter: when the total of deaths is zero the
  reported ratio is the sentinel (\<open>KdInfinite\<close>, the string \<^verbatim>\<open>'\<infinity>'\<close>) and no quotient is
  formed; when it is positive the reported ratio is \<open>KdFixed n\<close>, the decimal string of
  \<open>n / 100\<close>, with \<open>n = toFixed2 kills deaths\<close>. For totals in the range where the counters
  are exact (\<open>deaths < 2^53\<close>, \<open>kills < 2^45\<close>) that \<open>n / 100\<close> is \<open>kills / deaths\<close> rounded
  to two decimal places: no number with two decimals is nearer, that is,
  \<open>|kills / deaths - n / 100| \<le> 1 / 200\<close>, written here without fractions.
\<close>

theorem C6_kd_ratio:
  "(sum_d (aggregateRecentStats unicode puuid ms mf) = 0 \<longrightarrow>
      kd (aggregateRecentStats unicode puuid ms mf) = KdInfinite)
   \<and> (0 < sum_d (aggregateRecentStats unicode puuid ms mf) \<longrightarrow>
        kd (aggregateRecentStats unicode puuid ms mf)
          = KdFixed (toFixed2 (sum_k (aggregateRecentStats unicode puuid ms mf))
                              (sum_d (aggregateRecentStats unicode puuid ms mf))))
   \<and> (0 < d \<and> d < 2 ^ 53 \<and> k < 2 ^ 45 \<longrightarrow>
        200 * k \<le> 2 * (toFixed2 k d * d) + d \<and> 2 * (toFixed2 k d * d) \<le> 200 * k + d)"
  using toFixed2_nearest[of k d]
  by (simp add: aggregateRecentStats_def Let_def tally.defs summary.defs)

theorem C6_kd_ratio_witness:
  "kd (aggregateRecentStats (\<lambda>s. s) ''p1'' [match_flawless] None) = KdInfinite
   \<and> kd (aggregateRecentStats (\<lambda>s. s) ''p1'' [match_won] None) = KdFixed 100
   \<and> 200 * 201 \<le> 2 * (toFixed2 201 200 * 200) + (200 :: nat)
   \<and> 2 * (toFixed2 201 200 * 200) \<le> 200 * 201 + (200 :: nat)"
proof -
  have d0: "sum_d (aggregateRecentStats (\<lambda>s. s) ''p1'' [match_flawless] None) = 0"
    by (simp add: aggregateRecentStats_def count_match_def tally0_def match_flawless_def
        js_or_def or0_def Let_def tally.defs summary.defs)
  have d1: "sum_d (aggregateRecentStats (\<lambda>s. s) ''p1'' [match_won] None) = 200"
      "sum_k (aggregateRecentStats (\<lambda>s. s) ''p1'' [match_won] None) = 201"
    by (simp_all add: aggregateRecentStats_def count_match_def tally0_def match_won_def player1_def
        js_or_def or0_def Let_def tally.defs summary.defs)
  have f: "toFixed2 201 200 = 100"
    by (simp add: toFixed2_def significand_def shift_def bits.simps Let_def)
  show ?thesis
    using C6_kd_ratio[of "\<lambda>s. s" "''p1''" "[match_flawless]" None 200 201]
      C6_kd_ratio[of "\<lambda>s. s" "''p1''" "[match_won]" None 200 201]
    by (simp add: d0 d1 f)
qed

text \<open>
  C7. Let \<open>m\<close> be a match record that passes the mode filter and in which the tracked
  player is found with stats, and let its win flag be unresolvable: the record has no
  team list, or no team of the list has the player's team id, or that team has no
  \<^verbatim>\<open>won\<close> field. Then the turn of the loop for \<open>m\<close> adds one to the game count and nothing
  to the win count; so, wherever \<open>m\<close> stands in the list, the summary has one game more
  and as many wins as the summary of the list without \<open>m\<close>.
\<close>

theorem C7_unresolved_counts_as_loss:
  assumes "js_or mf [] = [] \<or> mf = Some (js_or (Option.bind (matchInfo m) gameMode) ''unknown'')"
    and "players m = Some ps"
    and "find (\<lambda>p. p_puuid p = puuid) ps = Some pl"
    and "p_stats pl = Some st"
    and "teams m = None
         \<or> (\<exists>ts. teams m = Some ts
                \<and> (find (\<lambda>t. t_teamId t = p_teamId pl) ts = None
                    \<or> (\<exists>t. find (\<lambda>t. t_teamId t = p_teamId pl) ts = Some t \<and> t_won t = None)))"
  shows "total (count_match unicode puuid mf acc m) = total acc + 1
     \<and> wins (count_match unicode puuid mf acc m) = wins acc
     \<and> total (aggregateRecentStats unicode puuid (ms1 @ m # ms2) mf)
         = total (aggregateRecentStats unicode puuid (ms1 @ ms2) mf) + 1
     \<and> wins (aggregateRecentStats unicode puuid (ms1 @ m # ms2) mf)
         = wins (aggregateRecentStats unicode puuid (ms1 @ ms2) mf)"
proof -
  have w: "Option.bind (Option.bind (teams m) (find (\<lambda>t. t_teamId t = p_teamId pl))) t_won = None"
    using assms(5) by auto
  have step: "total (count_match unicode puuid mf a m) = total a + 1 \<and> wins (count_match unicode puuid mf a m) = wins a"
    for a
    using assms(1-4) w by (auto simp: count_match_def Let_def)
  show ?thesis
    using step[of acc] step[of tally0] agg_insert[of unicode puuid ms1 m ms2 mf]
    by (simp add: tally0_def)
qed

theorem C7_unresolved_counts_as_loss_witness:
  "total (aggregateRecentStats (\<lambda>s. s) ''p1'' ([match_won] @ match_noteams # [match_won]) None) = 3
   \<and> wins (aggregateRecentStats (\<lambda>s. s) ''p1'' ([match_won] @ match_noteams # [match_won]) None) = 2"
proof -
  have e: "total (aggregateRecentStats (\<lambda>s. s) ''p1'' ([match_won] @ [match_won]) None) = 2"
     "wins (aggregateRecentStats (\<lambda>s. s) ''p1'' ([match_won] @ [match_won]) None) = 2"
    by (simp_all add: aggregateRecentStats_def count_match_def tally0_def match_won_def player1_def
        js_or_def or0_def Let_def tally.defs summary.defs)
  have p: "js_or None [] = [] \<or> None = Some (js_or (Option.bind (matchInfo match_noteams) gameMode) ''unknown'')"
    "players match_noteams = Some [player1]"
    "find (\<lambda>p. p_puuid p = ''p1'') [player1] = Some player1"
    "p_stats player1 = Some \<lparr>kills = Some 201, deaths = Some 200, assists = Some 3\<rparr>"
    "teams match_noteams = None
         \<or> (\<exists>ts. teams match_noteams = Some ts
                \<and> (find (\<lambda>t. t_teamId t = p_teamId player1) ts = None
                    \<or> (\<exists>t. find (\<lambda>t. t_teamId t = p_teamId player1) ts = Some t \<and> t_won t = None)))"
    by (simp_all add: match_noteams_def match_won_def player1_def js_or_def)
  show ?thesis
    using C7_unresolved_counts_as_loss[OF p, of "\<lambda>s. s" tally0 "[match_won]" "[match_won]"] e
    by simp
qed

lemma Map_get_set:
  "Map_get (Map_set k v m) key = (if key = k then Some v else Map_get m key)"
  by (induction m) (auto simp: Map_get_def)

lemma distinct_Map_set: "distinct (map fst m) \<Longrightarrow> distinct (map fst (Map_set k v m))"
  by (induction m) (auto simp: keys_Map_set)

lemma split_nonempty: "split c s \<noteq> []"
  by (induction s) (auto split: list.splits)

lemma split_none: "c \<notin> set s \<Longrightarrow> split c s = [s]"
  by (induction s) auto

lemma split_some: "c \<in> set s \<Longrightarrow> \<exists>w v vs. split c s = w # v # vs"
proof (induction s)
  case Nil
  then show ?case by simp
next
  case (Cons x xs)
  obtain w ws where s: "split c xs = w # ws"
    using split_nonempty[of c xs] by (cases "split c xs") auto
  show ?case
  proof (cases "x = c")
    case True
    then show ?thesis using s by simp
  next
    case False
    then have "c \<in> set xs" using Cons.prems by simp
    then obtain w' v vs where "split c xs = w' # v # vs" using Cons.IH by blast
    then show ?thesis using False by simp
  qed
qed

lemma lastIndexOf_ge: "- 1 \<le> lastIndexOf s c"
  by (induction s) auto

lemma lastIndexOf_in: "c \<in> set s \<Longrightarrow> 0 \<le> lastIndexOf s c"
proof (induction s)
  case Nil
  then show ?case by simp
next
  case (Cons x xs)
  have g: "- 1 \<le> lastIndexOf xs c" by (rule lastIndexOf_ge)
  show ?case
  proof (cases "lastIndexOf xs c = - 1")
    case True
    then have "c \<notin> set xs" using Cons.IH by auto
    then show ?thesis using Cons.prems True by simp
  next
    case False
    then show ?thesis using g by simp
  qed
qed

lemma last_split: "last (split c s) = drop (nat (lastIndexOf s c + 1)) s"
proof (induction s)
  case Nil
  then show ?case by simp
next
  case (Cons x xs)
  show ?case
  proof (cases "c \<in> set xs")
    case False
    then have l: "lastIndexOf xs c = - 1" by (rule lastIndexOf_notin)
    show ?thesis using False l Cons.IH by (simp add: split_none)
  next
    case True
    then have l: "0 \<le> lastIndexOf xs c" by (rule lastIndexOf_in)
    obtain w v vs where s: "split c xs = w # v # vs" using split_some[OF True] by blast
    have n: "nat (lastIndexOf xs c + 1 + 1) = Suc (nat (lastIndexOf xs c + 1))"
      using l by simp
    have "last (split c (x # xs)) = last (split c xs)" using s by simp
    then show ?thesis using l n Cons.IH by simp
  qed
qed

lemma pop_split: "pop (split c s) = Some (drop (nat (lastIndexOf s c + 1)) s)"
  by (simp add: pop_def split_nonempty last_split)

lemma mode_eq:
  "js_or (Option.bind (matchInfo m) gameMode) ''unknown''
     = (case matchInfo m of
          None \<Rightarrow> ''unknown''
        | Some mi \<Rightarrow> (case gameMode mi of
                       None \<Rightarrow> ''unknown''
                     | Some g \<Rightarrow> if g = [] then ''unknown'' else g))"
  by (simp add: js_or_def split: option.splits)

lemma wanted_eq:
  "(js_or mf [] \<noteq> [] \<and> Some mode \<noteq> mf)
     = (\<not> (case mf of None \<Rightarrow> True | Some f \<Rightarrow> f = [] \<or> f = mode))"
  by (auto simp: js_or_def split: option.splits)

lemma tracked_alt:
  "tracked puuid mf m =
     (if js_or mf [] \<noteq> [] \<and> Some (js_or (Option.bind (matchInfo m) gameMode) ''unknown'') \<noteq> mf
      then None
      else (case Option.bind (players m) (find (\<lambda>p. p_puuid p = puuid)) of
              None \<Rightarrow> None
            | Some pl \<Rightarrow> (case p_stats pl of None \<Rightarrow> None | Some st \<Rightarrow> Some pl)))"
  unfolding tracked_def Let_def wanted_eq mode_eq
  by (cases "players m") simp_all

lemma count_untracked:
  assumes "tracked puuid mf m = None"
  shows "count_match unicode puuid mf acc m = acc"
proof (cases "js_or mf [] \<noteq> []
    \<and> Some (js_or (Option.bind (matchInfo m) gameMode) ''unknown'') \<noteq> mf")
  case True
  then show ?thesis by (simp add: count_match_def Let_def)
next
  case False
  show ?thesis
  proof (cases "Option.bind (players m) (find (\<lambda>p. p_puuid p = puuid))")
    case None
    then show ?thesis using False by (simp add: count_match_def Let_def)
  next
    case (Some pl)
    then have "p_stats pl = None"
      using assms False by (simp add: tracked_alt split: option.splits)
    then show ?thesis using False Some by (simp add: count_match_def Let_def)
  qed
qed

lemma map_segment:
  "js_or (Option.bind (Option.bind (matchInfo m) mapId) (\<lambda>s. pop (split CHR ''/'' s))) ''map''
     = (case matchInfo m of
          None \<Rightarrow> ''map''
        | Some mi \<Rightarrow>
            (case mapId mi of
               None \<Rightarrow> ''map''
             | Some s \<Rightarrow>
                 (let seg = drop (nat (lastIndexOf s CHR ''/'' + 1)) s
                  in if seg = [] then ''map'' else seg)))"
  by (simp add: js_or_def pop_split Let_def split: option.splits)

lemma agent_id:
  "js_or (p_characterId pl) ''unknown''
     = (case p_characterId pl of None \<Rightarrow> ''unknown'' | Some c \<Rightarrow> if c = [] then ''unknown'' else c)"
  by (simp add: js_or_def)

lemma count_tracked:
  assumes "tracked puuid mf m = Some pl"
  shows "total (count_match unicode puuid mf acc m) = Suc (total acc)"
    and "perAgent (count_match unicode puuid mf acc m)
           = Map_set (agentKey unicode pl)
               (Suc (or0 (Map_get (perAgent acc) (agentKey unicode pl)))) (perAgent acc)"
    and "perMap (count_match unicode puuid mf acc m)
           = Map_set (mapKey unicode m)
               (Suc (or0 (Map_get (perMap acc) (mapKey unicode m)))) (perMap acc)"
proof -
  have f: "\<not> (js_or mf [] \<noteq> []
    \<and> Some (js_or (Option.bind (matchInfo m) gameMode) ''unknown'') \<noteq> mf)"
    using assms by (auto simp: tracked_alt split: if_splits)
  then have p: "Option.bind (players m) (find (\<lambda>p. p_puuid p = puuid)) = Some pl"
    using assms by (auto simp: tracked_alt split: if_splits option.splits)
  obtain st where st: "p_stats pl = Some st"
    using assms f p by (auto simp: tracked_alt split: if_splits option.splits)
  have c: "(js_or mf [] \<noteq> []
    \<and> Some (js_or (Option.bind (matchInfo m) gameMode) ''unknown'') \<noteq> mf) = False"
    using f by blast
  have k: "agentKey unicode pl = toLowerCase unicode (js_or (p_characterId pl) ''unknown'')"
    by (simp add: agentKey_def agent_id)
  have mk: "mapKey unicode m = toLowerCase unicode
      (js_or (Option.bind (Option.bind (matchInfo m) mapId) (\<lambda>s. pop (split CHR ''/'' s))) ''map'')"
    unfolding mapKey_def map_segment by simp
  show "total (count_match unicode puuid mf acc m) = Suc (total acc)"
    using p st by (simp add: count_match_def Let_def c)
  show "perAgent (count_match unicode puuid mf acc m)
           = Map_set (agentKey unicode pl)
               (Suc (or0 (Map_get (perAgent acc) (agentKey unicode pl)))) (perAgent acc)"
    unfolding k using p st by (simp add: count_match_def Let_def c)
  show "perMap (count_match unicode puuid mf acc m)
           = Map_set (mapKey unicode m)
               (Suc (or0 (Map_get (perMap acc) (mapKey unicode m)))) (perMap acc)"
    unfolding mk using p st by (simp add: count_match_def Let_def c)
qed

lemma tallied_simps: "or0 (tallied n) = n" "tallied (Suc n) = Some (Suc n)"
  by (simp_all add: tallied_def or0_def)

lemma fold_tallies:
  "total (foldl (count_match unicode puuid mf) tally0 ms)
     = length (filter (\<lambda>m. tracked puuid mf m \<noteq> None) ms)
   \<and> distinct (map fst (perAgent (foldl (count_match unicode puuid mf) tally0 ms)))
   \<and> distinct (map fst (perMap (foldl (count_match unicode puuid mf) tally0 ms)))
   \<and> (\<forall>key. Map_get (perAgent (foldl (count_match unicode puuid mf) tally0 ms)) key
         = tallied (length (filter
             (\<lambda>m. map_option (agentKey unicode) (tracked puuid mf m) = Some key) ms)))
   \<and> (\<forall>key. Map_get (perMap (foldl (count_match unicode puuid mf) tally0 ms)) key
         = tallied (length (filter
             (\<lambda>m. tracked puuid mf m \<noteq> None \<and> mapKey unicode m = key) ms)))"
proof (induction ms rule: rev_induct)
  case Nil
  then show ?case by (simp add: tally0_def Map_get_def tallied_def)
next
  case (snoc m ms)
  let ?acc = "foldl (count_match unicode puuid mf) tally0 ms"
  show ?case
  proof (cases "tracked puuid mf m")
    case None
    then show ?thesis using snoc by (simp add: count_untracked)
  next
    case (Some pl)
    show ?thesis
      using snoc count_tracked[OF Some, of unicode ?acc] Some
      by (simp add: Map_get_set distinct_Map_set tallied_simps)
  qed
qed

lemma sums_step:
  assumes "wins acc \<le> total acc \<and> sum_list (map snd (perAgent acc)) = total acc
           \<and> sum_list (map snd (perMap acc)) = total acc"
  shows "wins (count_match unicode puuid mf acc m) \<le> total (count_match unicode puuid mf acc m)
     \<and> sum_list (map snd (perAgent (count_match unicode puuid mf acc m)))
         = total (count_match unicode puuid mf acc m)
     \<and> sum_list (map snd (perMap (count_match unicode puuid mf acc m)))
         = total (count_match unicode puuid mf acc m)"
  using assms unfolding count_match_def Let_def
  by (auto simp: sum_Map_set split: option.splits)

lemma sums_foldl:
  "wins acc \<le> total acc \<and> sum_list (map snd (perAgent acc)) = total acc
           \<and> sum_list (map snd (perMap acc)) = total acc \<Longrightarrow>
   wins (foldl (count_match unicode puuid mf) acc ms)
       \<le> total (foldl (count_match unicode puuid mf) acc ms)
     \<and> sum_list (map snd (perAgent (foldl (count_match unicode puuid mf) acc ms)))
         = total (foldl (count_match unicode puuid mf) acc ms)
     \<and> sum_list (map snd (perMap (foldl (count_match unicode puuid mf) acc ms)))
         = total (foldl (count_match unicode puuid mf) acc ms)"
proof (induction ms arbitrary: acc)
  case Nil
  then show ?case by simp
next
  case (Cons m ms)
  show ?case
    using Cons.IH[OF sums_step[OF Cons.prems, of unicode puuid mf m]] by simp
qed

lemma lower_ascii:
  "toLowerCase unicode ''ABCDEFGHIJKLMNOPQRSTUVWXYZ0123456789-/_''
     = ''abcdefghijklmnopqrstuvwxyz0123456789-/_''"
  by (simp add: toLowerCase_def ascii_lower_def char_of_def bit_0)

text \<open>
  C10. For every player identifier, match list and mode filter: the game count of the
  summary is the number of counted records of the list and the win count is no larger;
  the values of the per-agent tally sum to the game count and so do the values of the
  per-map tally; each tally has one entry a key, and under a key it holds the number of
  counted records that have that agent key (that map key), with no entry when there is
  none. One turn of the loop leaves the variables as they are when the record is not
  counted; when it is counted the turn adds one game, one to the entry of the record's
  agent key and one to the entry of its map key, and changes the entry of no other key.
  The keys are the lower-cased identifiers: \<open>unknown\<close> stands in for a missing character
  identifier and \<open>map\<close> for a missing map identifier, and lower-casing turns the letters
  \<open>A\<close> to \<open>Z\<close> into \<open>a\<close> to \<open>z\<close>.
\<close>

theorem C10_tallies:
  "(let r = aggregateRecentStats unicode puuid ms mf
    in total r = length (filter (\<lambda>m. tracked puuid mf m \<noteq> None) ms)
       \<and> wins r \<le> total r
       \<and> sum_list (map snd (perAgent r)) = total r
       \<and> sum_list (map snd (perMap r)) = total r
       \<and> distinct (map fst (perAgent r)) \<and> distinct (map fst (perMap r))
       \<and> Map_get (perAgent r) key
           = tallied (length (filter
               (\<lambda>m. map_option (agentKey unicode) (tracked puuid mf m) = Some key) ms))
       \<and> Map_get (perMap r) key
           = tallied (length (filter
               (\<lambda>m. tracked puuid mf m \<noteq> None \<and> mapKey unicode m = key) ms)))
   \<and> (tracked puuid mf m = None \<longrightarrow> count_match unicode puuid mf acc m = acc)
   \<and> (tracked puuid mf m = Some pl \<longrightarrow>
         total (count_match unicode puuid mf acc m) = total acc + 1
         \<and> Map_get (perAgent (count_match unicode puuid mf acc m)) key
             = (if key = agentKey unicode pl then Some (or0 (Map_get (perAgent acc) key) + 1)
                else Map_get (perAgent acc) key)
         \<and> Map_get (perMap (count_match unicode puuid mf acc m)) key
             = (if key = mapKey unicode m then Some (or0 (Map_get (perMap acc) key) + 1)
                else Map_get (perMap acc) key))
   \<and> (p_characterId pl = None \<longrightarrow> agentKey unicode pl = ''unknown'')
   \<and> (matchInfo m = None \<longrightarrow> mapKey unicode m = ''map'')
   \<and> toLowerCase unicode ''ABCDEFGHIJKLMNOPQRSTUVWXYZ0123456789-/_''
        = ''abcdefghijklmnopqrstuvwxyz0123456789-/_''"
proof -
  have s: "wins tally0 \<le> total tally0 \<and> sum_list (map snd (perAgent tally0)) = total tally0
           \<and> sum_list (map snd (perMap tally0)) = total tally0"
    by (simp add: tally0_def)
  have a: "let r = aggregateRecentStats unicode puuid ms mf
    in total r = length (filter (\<lambda>m. tracked puuid mf m \<noteq> None) ms)
       \<and> wins r \<le> total r
       \<and> sum_list (map snd (perAgent r)) = total r
       \<and> sum_list (map snd (perMap r)) = total r
       \<and> distinct (map fst (perAgent r)) \<and> distinct (map fst (perMap r))
       \<and> Map_get (perAgent r) key
           = tallied (length (filter
               (\<lambda>m. map_option (agentKey unicode) (tracked puuid mf m) = Some key) ms))
       \<and> Map_get (perMap r) key
           = tallied (length (filter
               (\<lambda>m. tracked puuid mf m \<noteq> None \<and> mapKey unicode m = key) ms))"
    using fold_tallies[of unicode puuid mf ms] sums_foldl[OF s, of unicode puuid mf ms]
    unfolding Let_def agg_total by simp
  have b: "tracked puuid mf m = None \<longrightarrow> count_match unicode puuid mf acc m = acc"
    by (simp add: count_untracked)
  have c: "tracked puuid mf m = Some pl \<longrightarrow>
         total (count_match unicode puuid mf acc m) = total acc + 1
         \<and> Map_get (perAgent (count_match unicode puuid mf acc m)) key
             = (if key = agentKey unicode pl then Some (or0 (Map_get (perAgent acc) key) + 1)
                else Map_get (perAgent acc) key)
         \<and> Map_get (perMap (count_match unicode puuid mf acc m)) key
             = (if key = mapKey unicode m then Some (or0 (Map_get (perMap acc) key) + 1)
                else Map_get (perMap acc) key)"
    by (simp add: count_tracked Map_get_set)
  have d: "p_characterId pl = None \<longrightarrow> agentKey unicode pl = ''unknown''"
    "matchInfo m = None \<longrightarrow> mapKey unicode m = ''map''"
    by (simp_all add: agentKey_def mapKey_def toLowerCase_def ascii_lower_def)
  show ?thesis by (intro conjI a b c d lower_ascii)
qed

theorem C10_tallies_witness:
  "total (aggregateRecentStats (\<lambda>s. s) ''p1'' [match_won, match_flawless, match_noteams] None) = 3
   \<and> Map_get (perAgent (aggregateRecentStats (\<lambda>s. s) ''p1''
                 [match_won, match_flawless, match_noteams] None)) ''add6443a'' = Some 2
   \<and> Map_get (perAgent (aggregateRecentStats (\<lambda>s. s) ''p1''
                 [match_won, match_flawless, match_noteams] None)) ''unknown'' = Some 1
   \<and> Map_get (perAgent (aggregateRecentStats (\<lambda>s. s) ''p1''
                 [match_won, match_flawless, match_noteams] None)) ''ADD6443A'' = None
   \<and> Map_get (perMap (aggregateRecentStats (\<lambda>s. s) ''p1''
                 [match_won, match_flawless, match_noteams] None)) ''ascent'' = Some 2
   \<and> Map_get (perMap (aggregateRecentStats (\<lambda>s. s) ''p1''
                 [match_won, match_flawless, match_noteams] None)) ''map'' = Some 1
   \<and> count_match (\<lambda>s. s) ''p1'' (Some ''unrated'') tally0 match_won = tally0"
proof -
  have t: "tracked ''p1'' None match_won = Some player1"
     "tracked ''p1'' None match_noteams = Some player1"
     "tracked ''p1'' None match_flawless
        = Some \<lparr>p_puuid = ''p1'', p_teamId = None, p_characterId = None,
                 p_stats = Some \<lparr>kills = Some 7, deaths = None, assists = None\<rparr>\<rparr>"
     "tracked ''p1'' (Some ''unrated'') match_won = None"
    by (simp_all add: tracked_def match_won_def match_noteams_def match_flawless_def player1_def)
  have k: "agentKey (\<lambda>s. s) player1 = ''add6443a''"
     "agentKey (\<lambda>s. s) \<lparr>p_puuid = ''p1'', p_teamId = None, p_characterId = None,
                 p_stats = Some \<lparr>kills = Some 7, deaths = None, assists = None\<rparr>\<rparr> = ''unknown''"
     "mapKey (\<lambda>s. s) match_won = ''ascent''" "mapKey (\<lambda>s. s) match_noteams = ''ascent''"
     "mapKey (\<lambda>s. s) match_flawless = ''map''"
    using lastIndexOf_last[of "CHR ''/''" "''Ascent''" "''/Game/Maps/Ascent''"]
    by (simp_all add: agentKey_def mapKey_def match_won_def match_noteams_def match_flawless_def
        player1_def toLowerCase_def ascii_lower_def char_of_def bit_0 Let_def
        del: lastIndexOf.simps)
  note u = C10_tallies [where unicode="\<lambda>s. s" and puuid="''p1''" and mf="Some ''unrated''"
      and m=match_won and acc=tally0, THEN conjunct2, THEN conjunct1]
  have "total (aggregateRecentStats (\<lambda>s. s) ''p1'' [match_won, match_flawless, match_noteams] None) = 3"
    using C10_tallies [where unicode="\<lambda>s. s" and puuid="''p1''"
        and ms="[match_won, match_flawless, match_noteams]" and mf=None and key="[]",
        THEN conjunct1, unfolded Let_def] by (simp add: t)
  moreover have "Map_get (perAgent (aggregateRecentStats (\<lambda>s. s) ''p1''
                 [match_won, match_flawless, match_noteams] None)) ''add6443a'' = Some 2"
    using C10_tallies [where unicode="\<lambda>s. s" and puuid="''p1''"
        and ms="[match_won, match_flawless, match_noteams]" and mf=None and key="''add6443a''",
        THEN conjunct1, unfolded Let_def] by (simp add: t k tallied_def)
  moreover have "Map_get (perAgent (aggregateRecentStats (\<lambda>s. s) ''p1''
                 [match_won, match_flawless, match_noteams] None)) ''unknown'' = Some 1"
    using C10_tallies [where unicode="\<lambda>s. s" and puuid="''p1''"
        and ms="[match_won, match_flawless, match_noteams]" and mf=None and key="''unknown''",
        THEN conjunct1, unfolded Let_def] by (simp add: t k tallied_def)
  moreover have "Map_get (perAgent (aggregateRecentStats (\<lambda>s. s) ''p1''
                 [match_won, match_flawless, match_noteams] None)) ''ADD6443A'' = None"
    using C10_tallies [where unicode="\<lambda>s. s" and puuid="''p1''"
        and ms="[match_won, match_flawless, match_noteams]" and mf=None and key="''ADD6443A''",
        THEN conjunct1, unfolded Let_def] by (simp add: t k tallied_def)
  moreover have "Map_get (perMap (aggregateRecentStats (\<lambda>s. s) ''p1''
                 [match_won, match_flawless, match_noteams] None)) ''ascent'' = Some 2"
    using C10_tallies [where unicode="\<lambda>s. s" and puuid="''p1''"
        and ms="[match_won, match_flawless, match_noteams]" and mf=None and key="''ascent''",
        THEN conjunct1, unfolded Let_def] by (simp add: t k tallied_def)
  moreover have "Map_get (perMap (aggregateRecentStats (\<lambda>s. s) ''p1''
                 [match_won, match_flawless, match_noteams] None)) ''map'' = Some 1"
    using C10_tallies [where unicode="\<lambda>s. s" and puuid="''p1''"
        and ms="[match_won, match_flawless, match_noteams]" and mf=None and key="''map''",
        THEN conjunct1, unfolded Let_def] by (simp add: t k tallied_def)
  moreover have "count_match (\<lambda>s. s) ''p1'' (Some ''unrated'') tally0 match_won = tally0"
    using u by (simp add: t)
  ultimately show ?thesis by (intro conjI)
qed

section \<open>Properties of the match list lookup\<close>

text \<open>
  Where the two paths agree: when the response is an object whose \<^verbatim>\<open>history\<close> is an
  array, a call that finds the response in the cache returns what the call that fetched
  it returned, and fetches nothing.
\<close>

lemma hit_agrees:
  assumes "remote (snd (riotBases e None (Some shard)) @ ''/matchlists/by-puuid/'' @ puuid) 0
             = Responded res"
    and "status res \<noteq> 429" and "ok res" and "bodyJson res = Some data"
    and "getProp ''history'' data = Inr (JArr hs)"
    and "\<not> truthy (fst (cache_get t (''matchlist:'' @ shard @ '':'' @ puuid) m0))"
    and "t2 \<le> t' + 30000"
  shows "fst (getRecentMatchIdsByPuuid e remote t2 t3
                (snd (snd (getRecentMatchIdsByPuuid e remote t t' m0 puuid shard start count)))
                puuid shard start count)
       = fst (getRecentMatchIdsByPuuid e remote t t' m0 puuid shard start count)
     \<and> fst (snd (getRecentMatchIdsByPuuid e remote t2 t3
                (snd (snd (getRecentMatchIdsByPuuid e remote t t' m0 puuid shard start count)))
                puuid shard start count)) = []"
proof -
  have d: "truthy data"
    using assms(5) by (auto simp: getProp_def truthy_def split: jsval.splits)
  have o: "optProp ''history'' data = Inr (JArr hs)"
    using assms(5) by (auto simp: optProp_def getProp_def)
  have r: "riotRequest remote (snd (riotBases e None (Some shard)) @ ''/matchlists/by-puuid/'' @ puuid) 0 2
      = (Inr data, [TakeToken, Fetch (snd (riotBases e None (Some shard)) @ ''/matchlists/by-puuid/'' @ puuid)])"
    using assms(1-4) by (simp add: riotRequest.simps settle_def)
  obtain c v where g: "cache_get t (''matchlist:'' @ shard @ '':'' @ puuid) m0 = (v, c)"
    by (cases "cache_get t (''matchlist:'' @ shard @ '':'' @ puuid) m0") auto
  have f: "getRecentMatchIdsByPuuid e remote t t' m0 puuid shard start count
      = (sliceMap (JArr hs) start count,
         [TakeToken, Fetch (snd (riotBases e None (Some shard)) @ ''/matchlists/by-puuid/'' @ puuid)],
         cache_set t' (''matchlist:'' @ shard @ '':'' @ puuid) data (Some 30000) c)"
    using assms(6) g r o
    by (simp add: getRecentMatchIdsByPuuid_def Let_def truthy_def)
  have h: "getRecentMatchIdsByPuuid e remote t2 t3
             (cache_set t' (''matchlist:'' @ shard @ '':'' @ puuid) data (Some 30000) c)
             puuid shard start count
      = (sliceMap (JArr hs) start count, [],
         cache_set t' (''matchlist:'' @ shard @ '':'' @ puuid) data (Some 30000) c)"
    using assms(5,7) d
    by (simp add: getRecentMatchIdsByPuuid_def Let_def cache_get_def cache_set_def)
  show ?thesis unfolding f snd_conv h fst_conv by simp
qed

text \<open>
  C9. The match list of \<open>p1\<close> comes back as an object without a \<^verbatim>\<open>history\<close> field. The
  first call, on the empty cache, fetches it, stores it and returns the empty list. The
  second call, one second later, finds it in the cache and throws a \<^verbatim>\<open>TypeError\<close>:
  \<^verbatim>\<open>cached.history\<close> is \<^verbatim>\<open>undefined\<close> and has no \<^verbatim>\<open>slice\<close>.
\<close>

theorem C9_cache_hit_throws:
  "getRecentMatchIdsByPuuid env0 noHistory 0 100 Map.empty ''p1'' ''eu'' 0 5
     = (Inr [],
        [TakeToken, Fetch ''https://eu.api.riotgames.com/val/match/v1/matchlists/by-puuid/p1''],
        cache_set 100 ''matchlist:eu:p1'' (JObj [(''puuid'', JStr ''p1'')]) (Some 30000) Map.empty)
   \<and> getRecentMatchIdsByPuuid env0 noHistory 1000 1100
        (cache_set 100 ''matchlist:eu:p1'' (JObj [(''puuid'', JStr ''p1'')]) (Some 30000) Map.empty)
        ''p1'' ''eu'' 0 5
     = (Inl TypeError, [],
        cache_set 100 ''matchlist:eu:p1'' (JObj [(''puuid'', JStr ''p1'')]) (Some 30000) Map.empty)"
proof -
  have a: "getRecentMatchIdsByPuuid env0 noHistory 0 100 Map.empty ''p1'' ''eu'' 0 5
     = (Inr [],
        [TakeToken, Fetch ''https://eu.api.riotgames.com/val/match/v1/matchlists/by-puuid/p1''],
        cache_set 100 ''matchlist:eu:p1'' (JObj [(''puuid'', JStr ''p1'')]) (Some 30000) Map.empty)"
    by (simp add: getRecentMatchIdsByPuuid_def cache_get_def riotBases_def default_arg_def
        riotRequest.simps noHistory_def settle_def ok_def optProp_def getProp_def truthy_def
        sliceMap_def slice_def slice_index_def)
  have b: "getRecentMatchIdsByPuuid env0 noHistory 1000 1100
        (cache_set 100 ''matchlist:eu:p1'' (JObj [(''puuid'', JStr ''p1'')]) (Some 30000) Map.empty)
        ''p1'' ''eu'' 0 5
     = (Inl TypeError, [],
        cache_set 100 ''matchlist:eu:p1'' (JObj [(''puuid'', JStr ''p1'')]) (Some 30000) Map.empty)"
    by (simp add: getRecentMatchIdsByPuuid_def cache_get_def cache_set_def riotBases_def
        default_arg_def getProp_def truthy_def sliceMap_def)
  show ?thesis using a b by (rule conjI)
qed

section \<open>Properties of the routing\<close>

lemma defaults_nonempty: "VAL_SHARD e \<noteq> []" "RIOT_REGION e \<noteq> []"
  by (simp_all add: VAL_SHARD_def RIOT_REGION_def js_or_nonempty)

lemma link_try_links:
  assumes "link_try e num remote now riotIdRaw shard region w = (r, w')"
  shows "links w' = links w
      \<or> (Option.bind (links w' (user_id (ia w))) l_shard = Some (linkShard e shard)
          \<and> Option.bind (links w' (user_id (ia w))) l_region = Some (linkRegion e region))"
  using assms
  by (auto simp: link_try_def editReply_def Let_def split: sum.splits prod.splits if_splits)

lemma request_once:
  assumes "remote url 0 = Responded res" and "ok res" and "bodyJson res = Some v"
  shows "riotRequest remote url 0 2 = (Inr v, [TakeToken, Fetch url])"
  using assms by (simp add: riotRequest.simps settle_def ok_def)

lemma request_events:
  "set (snd (riotRequest remote url i retry)) \<subseteq> {TakeToken, Fetch url} \<union> range Sleep"
proof (induction remote url i retry rule: riotRequest.induct)
  case (1 remote url i retry)
  show ?case
  proof (cases "remote url i")
    case Rejected
    then show ?thesis by (simp add: riotRequest.simps[of remote url i retry])
  next
    case (Responded res)
    show ?thesis
    proof (cases "status res = 429 \<and> retry > 0")
      case True
      obtain r evs where q: "riotRequest remote url (Suc i) (retry - 1) = (r, evs)"
        by (cases "riotRequest remote url (Suc i) (retry - 1)") auto
      have "set evs \<subseteq> {TakeToken, Fetch url} \<union> range Sleep"
        using 1[OF Responded True] q by simp
      then show ?thesis
        using Responded True q by (auto simp: riotRequest.simps[of remote url i retry])
    next
      case False
      then show ?thesis
        using Responded by (auto simp: riotRequest.simps[of remote url i retry])
    qed
  qed
qed

lemma account_unfold:
  "getAccountByRiotId e remote g tg (Some R) = riotRequest remote (accountUrl R g tg) 0 2"
  by (simp add: getAccountByRiotId_def riotBases_def default_arg_def Let_def accountUrl_def)

lemma matchlist_events:
  "set (fst (snd (getRecentMatchIdsByPuuid e remote t t' c p S start count)))
     \<subseteq> {TakeToken, Fetch (matchlistUrl S p)} \<union> range Sleep"
proof -
  obtain v c1 where g: "cache_get t (''matchlist:'' @ S @ '':'' @ p) c = (v, c1)"
    by (cases "cache_get t (''matchlist:'' @ S @ '':'' @ p) c") auto
  obtain r evs where q: "riotRequest remote (matchlistUrl S p) 0 2 = (r, evs)"
    by (cases "riotRequest remote (matchlistUrl S p) 0 2") auto
  have s: "set evs \<subseteq> {TakeToken, Fetch (matchlistUrl S p)} \<union> range Sleep"
    using request_events[of remote "matchlistUrl S p" 0 2] q by simp
  have u: "snd (riotBases e None (Some S)) @ ''/matchlists/by-puuid/'' @ p = matchlistUrl S p"
    by (simp add: riotBases_def default_arg_def matchlistUrl_def)
  show ?thesis
    using g q s unfolding getRecentMatchIdsByPuuid_def Let_def u
    by (auto split: sum.splits)
qed

lemma link_ok:
  assumes "\<not> deferred (ia w)" and "\<not> replied (ia w)"
    and "parseRiotId riotIdRaw = Inr (g, tg)"
    and "remote (accountUrl (linkRegion e x') g tg) 0 = Responded res"
    and "ok res" and "bodyJson res = Some account"
    and "getProp ''gameName'' account = Inr gName" and "getProp ''tagLine'' account = Inr tLine"
    and "toStr num gName = Inr a" and "toStr num tLine = Inr b"
  shows "linkCommand e num remote now riotIdRaw x x' w =
     (None, w\<lparr>links := (links w)(user_id (ia w) \<mapsto>
                  \<lparr>l_gameName = gName, l_tagLine = tLine, l_shard = Some (linkShard e x),
                   l_region = Some (linkRegion e x'), l_lastLinkedAt = Some now\<rparr>),
              ia := (ia w)\<lparr>deferred := True, replied := True,
                      shown := Some (Linked gName tLine (linkShard e x) (linkRegion e x'))\<rparr>,
              events := events w @ [TakeToken, Fetch (accountUrl (linkRegion e x') g tg)]\<rparr>)"
  using assms request_once[of remote "accountUrl (linkRegion e x') g tg" res account]
  by (simp add: linkCommand_def link_try_def andThen_def try_catch_def deferReply_def
      editReply_def account_unfold trackerUrl_def Let_def)

lemma me_linked:
  assumes "userLink (links w) (user_id (ia w)) = Some l"
    and "\<not> deferred (ia w)" and "\<not> replied (ia w)"
    and "toStr num (l_gameName l) = Inr a" and "toStr num (l_tagLine l) = Inr b"
  shows "meCommand e num w =
     (None, w\<lparr>ia := (ia w)\<lparr>replied := True,
                shown := Some (Me a b (effectiveShard e (Some l)) (effectiveRegion e (Some l)))\<rparr>\<rparr>)"
  using assms by (simp add: meCommand_def reply_def)

lemma profile_linked:
  assumes "userLink (links w) (default_arg user (user_id (ia w))) = Some l"
    and "\<not> deferred (ia w)" and "\<not> replied (ia w)"
  shows "profileCommand e rest user queue None w =
     try_catch (rest (l_gameName l) (l_tagLine l) (effectiveRegion e (Some l))
                  (effectiveShard e (Some l)) queue (w\<lparr>ia := (ia w)\<lparr>deferred := True\<rparr>\<rparr>))
       (\<lambda>err. editReply (Failed err))"
  using assms
  by (simp add: profileCommand_def andThen_def deferReply_def ensureLink_def js_or_def Let_def)

lemma profile_inline:
  assumes "s \<noteq> []" and "parseRiotId s = Inr (g, tg)"
    and "\<not> deferred (ia w)" and "\<not> replied (ia w)"
  shows "profileCommand e rest user queue (Some s) w =
     try_catch (rest (JStr g) (JStr tg)
                  (effectiveRegion e (userLink (links w) (default_arg user (user_id (ia w)))))
                  (effectiveShard e (userLink (links w) (default_arg user (user_id (ia w)))))
                  queue (w\<lparr>ia := (ia w)\<lparr>deferred := True\<rparr>\<rparr>))
       (\<lambda>err. editReply (Failed err))"
proof -
  have n: "effectiveRegion e y \<noteq> []" "effectiveShard e y \<noteq> []" for y
    by (simp_all add: effectiveShard_def effectiveRegion_def js_or_nonempty VAL_SHARD_def
        RIOT_REGION_def)
  have j: "js_or (Some a) b = a" if "a \<noteq> []" for a b
    using that by (simp add: js_or_def)
  show ?thesis
    using assms
    by (simp add: profileCommand_def andThen_def deferReply_def Let_def j n)
qed

lemma lastmatch_linked:
  assumes "userLink (links w) (default_arg user (user_id (ia w))) = Some l"
    and "\<not> deferred (ia w)" and "\<not> replied (ia w)"
  shows "lastmatchCommand e rest user w =
     try_catch (rest (l_gameName l) (l_tagLine l) (effectiveRegion e (Some l))
                  (effectiveShard e (Some l)) None (w\<lparr>ia := (ia w)\<lparr>deferred := True\<rparr>\<rparr>))
       (\<lambda>err. editReply (Failed err))"
  using assms
  by (simp add: lastmatchCommand_def andThen_def deferReply_def ensureLink_def Let_def)

lemma agentStats_linked:
  assumes "userLink (links w) (default_arg user (user_id (ia w))) = Some l"
    and "\<not> deferred (ia w)" and "\<not> replied (ia w)"
    and "getFilter (w\<lparr>ia := (ia w)\<lparr>deferred := True\<rparr>\<rparr>) = (Inr (Some f), w')"
  shows "agentStatsCommand e getFilter rest user queue w =
     try_catch (rest f (l_gameName l) (l_tagLine l) (effectiveRegion e (Some l))
                  (effectiveShard e (Some l)) queue w')
       (\<lambda>err. editReply (Failed err))"
  using assms
  by (simp add: agentStatsCommand_def andThen_def deferReply_def ensureLink_def Let_def)

lemma mapStats_linked:
  assumes "userLink (links w) (default_arg user (user_id (ia w))) = Some l"
    and "\<not> deferred (ia w)" and "\<not> replied (ia w)"
    and "getFilter (w\<lparr>ia := (ia w)\<lparr>deferred := True\<rparr>\<rparr>) = (Inr (Some f), w')"
  shows "mapStatsCommand e getFilter rest user queue w =
     try_catch (rest f (l_gameName l) (l_tagLine l) (effectiveRegion e (Some l))
                  (effectiveShard e (Some l)) queue w')
       (\<lambda>err. editReply (Failed err))"
  using assms
  by (simp add: mapStatsCommand_def andThen_def deferReply_def ensureLink_def Let_def)

lemma lookups_ok:
  assumes "toStr num gameName = Inr a" and "toStr num tagLine = Inr b"
    and "remote (accountUrl R a b) 0 = Responded ares"
    and "ok ares" and "bodyJson ares = Some account"
    and "getProp ''puuid'' account = Inr puuid" and "toStr num puuid = Inr p"
    and "\<not> truthy (fst (cache_get t (''matchlist:'' @ S @ '':'' @ p) (cache w)))"
    and "remote (matchlistUrl S p) 0 = Responded mres"
    and "ok mres" and "bodyJson mres = Some data"
    and "optProp ''history'' data = Inr h"
    and "sliceMap (if truthy h then h else JArr []) 0 count = Inr ids"
  shows "lookups e num remote t t' count k gameName tagLine R S queue w =
     k account ids S queue
       (w\<lparr>events := events w @ [TakeToken, Fetch (accountUrl R a b),
                                 TakeToken, Fetch (matchlistUrl S p)],
          cache := cache_set t' (''matchlist:'' @ S @ '':'' @ p) data (Some 30000)
                     (snd (cache_get t (''matchlist:'' @ S @ '':'' @ p) (cache w)))\<rparr>)"
proof -
  have u: "snd (riotBases e None (Some S)) @ ''/matchlists/by-puuid/'' @ q = matchlistUrl S q" for q
    by (simp add: riotBases_def default_arg_def matchlistUrl_def)
  obtain v c1 where c: "cache_get t (''matchlist:'' @ S @ '':'' @ p) (cache w) = (v, c1)"
    by (cases "cache_get t (''matchlist:'' @ S @ '':'' @ p) (cache w)") auto
  have m: "getRecentMatchIdsByPuuid e remote t t' (cache w) p S 0 count
      = (Inr ids, [TakeToken, Fetch (matchlistUrl S p)],
         cache_set t' (''matchlist:'' @ S @ '':'' @ p) data (Some 30000) c1)"
    using assms(8,12,13) c request_once[of remote "matchlistUrl S p" mres data] assms(9,10,11)
    unfolding getRecentMatchIdsByPuuid_def Let_def u
    by simp
  show ?thesis
    using assms(1,2,6,7) request_once[of remote "accountUrl R a b" ares account] assms(3,4,5) m c
    by (simp add: lookups_def account_unfold Let_def)
qed

lemma lookups_events:
  "set (events (snd (lookups e num remote t t' count stop gameName tagLine R S queue w)))
     \<subseteq> set (events w) \<union> range Sleep \<union> {TakeToken}
        \<union> {Fetch (accountUrl R a b) | a b. toStr num gameName = Inr a \<and> toStr num tagLine = Inr b}
        \<union> {Fetch (matchlistUrl S p) | p. True}"
proof (cases "toStr num gameName")
  case Inl
  then show ?thesis by (auto simp: lookups_def)
next
  case (Inr a)
  note ga = Inr
  show ?thesis
  proof (cases "toStr num tagLine")
    case Inl
    then show ?thesis using ga by (auto simp: lookups_def)
  next
    case (Inr b)
    note gb = Inr
    obtain r evs where a: "riotRequest remote (accountUrl R a b) 0 2 = (r, evs)"
      by (cases "riotRequest remote (accountUrl R a b) 0 2") auto
    have ae: "set evs \<subseteq> {TakeToken, Fetch (accountUrl R a b)} \<union> range Sleep"
      using request_events[of remote "accountUrl R a b" 0 2] a by simp
    show ?thesis
    proof (cases r)
      case (Inl err)
      then show ?thesis
        using a ae ga gb by (auto simp: lookups_def account_unfold Let_def)
    next
      case (Inr account)
      note ra = Inr
      show ?thesis
      proof (cases "getProp ''puuid'' account")
        case (Inl err)
        then show ?thesis
          using a ae ra ga gb by (auto simp: lookups_def account_unfold Let_def)
      next
        case (Inr puuid)
        note gp = Inr
        show ?thesis
        proof (cases "toStr num puuid")
          case (Inl err)
          then show ?thesis
            using a ae ra ga gb gp by (auto simp: lookups_def account_unfold Let_def)
        next
          case (Inr p)
          obtain r2 evs2 c2 where m:
            "getRecentMatchIdsByPuuid e remote t t' (cache w) p S 0 count = (r2, evs2, c2)"
            by (cases "getRecentMatchIdsByPuuid e remote t t' (cache w) p S 0 count") auto
          have e2: "set evs2 \<subseteq> {TakeToken, Fetch (matchlistUrl S p)} \<union> range Sleep"
            using matchlist_events[of e remote t t' "cache w" p S 0 count] m by simp
          have "events (snd (lookups e num remote t t' count stop gameName tagLine R S queue w))
                  = events w @ evs @ evs2"
            using a ra ga gb gp Inr m
            by (cases r2) (simp_all add: lookups_def account_unfold Let_def stop_def)
          then show ?thesis using ae e2 ga gb by auto
        qed
      qed
    qed
  qed
qed

text \<open>
  C4, as the code has it. No command combines the three levels. The link command has
  the override and no use for the stored link: a non-empty override wins, and without
  one the process default is taken, whatever is stored; when the account service knows
  the player, the lookup went to the region so resolved, and the link stored for the
  caller and the reply carry the resolved pair; when the command stores nothing, the
  links are as they were. Every other command that resolves a pair has no override and
  goes through \<open>effectiveShard\<close> and \<open>effectiveRegion\<close>: a non-empty value of the stored
  link wins, and without a link or without the field the process default is taken.
  \<^verbatim>\<open>/me\<close> shows the pair resolved from the caller's link. \<^verbatim>\<open>/profile\<close>, \<^verbatim>\<open>/lastmatch\<close>,
  \<^verbatim>\<open>/agent-stats\<close> and \<^verbatim>\<open>/map-stats\<close> on a target with a stored link run the rest of their
  \<^verbatim>\<open>try\<close> block with the region and the shard resolved from that link, and
  \<^verbatim>\<open>/profile\<close> with an inline identifier with those resolved from the target's link, or the
  process defaults when the target has none. The rest begins with the two lookups: when
  both are answered, the account was asked of the host of the region and the match list
  of the host of the shard, and what follows is given the same shard; whatever the
  answers are, the two lookups fetch nothing but that account URL and a match list of
  that shard. A resolved region or shard is never empty, as the process defaults are
  not.
\<close>

theorem C4_routing:
  "(s \<noteq> [] \<longrightarrow> linkShard e (Some s) = s \<and> linkRegion e (Some s) = s)
   \<and> linkShard e None = VAL_SHARD e \<and> linkRegion e None = RIOT_REGION e
   \<and> (l_shard l = Some s \<and> s \<noteq> [] \<longrightarrow> effectiveShard e (Some l) = s)
   \<and> (l_region l = Some s \<and> s \<noteq> [] \<longrightarrow> effectiveRegion e (Some l) = s)
   \<and> (l_shard l = None \<longrightarrow> effectiveShard e (Some l) = VAL_SHARD e)
   \<and> (l_region l = None \<longrightarrow> effectiveRegion e (Some l) = RIOT_REGION e)
   \<and> effectiveShard e None = VAL_SHARD e \<and> effectiveRegion e None = RIOT_REGION e
   \<and> linkShard e x \<noteq> [] \<and> linkRegion e x \<noteq> []
   \<and> effectiveShard e y \<noteq> [] \<and> effectiveRegion e y \<noteq> []
   \<and> (links (listener (linkCommand e num remote now riotIdRaw x x' w)) = links w
       \<or> (Option.bind (links (listener (linkCommand e num remote now riotIdRaw x x' w))
                          (user_id (ia w))) l_shard = Some (linkShard e x)
           \<and> Option.bind (links (listener (linkCommand e num remote now riotIdRaw x x' w))
                          (user_id (ia w))) l_region = Some (linkRegion e x')))
   \<and> (\<not> deferred (ia w) \<and> \<not> replied (ia w) \<and> parseRiotId riotIdRaw = Inr (g, tg)
        \<and> remote (accountUrl (linkRegion e x') g tg) 0 = Responded res
        \<and> ok res \<and> bodyJson res = Some account
        \<and> getProp ''gameName'' account = Inr gName \<and> getProp ''tagLine'' account = Inr tLine
        \<and> toStr num gName = Inr a \<and> toStr num tLine = Inr b
       \<longrightarrow> linkCommand e num remote now riotIdRaw x x' w =
            (None, w\<lparr>links := (links w)(user_id (ia w) \<mapsto>
                         \<lparr>l_gameName = gName, l_tagLine = tLine, l_shard = Some (linkShard e x),
                          l_region = Some (linkRegion e x'), l_lastLinkedAt = Some now\<rparr>),
                     ia := (ia w)\<lparr>deferred := True, replied := True,
                             shown := Some (Linked gName tLine (linkShard e x) (linkRegion e x'))\<rparr>,
                     events := events w @ [TakeToken, Fetch (accountUrl (linkRegion e x') g tg)]\<rparr>))
   \<and> (userLink (links w) (user_id (ia w)) = Some l \<and> \<not> deferred (ia w) \<and> \<not> replied (ia w)
        \<and> toStr num (l_gameName l) = Inr a \<and> toStr num (l_tagLine l) = Inr b
       \<longrightarrow> meCommand e num w =
            (None, w\<lparr>ia := (ia w)\<lparr>replied := True,
                       shown := Some (Me a b (effectiveShard e (Some l))
                                        (effectiveRegion e (Some l)))\<rparr>\<rparr>))
   \<and> (userLink (links w) (default_arg user (user_id (ia w))) = Some l
        \<and> \<not> deferred (ia w) \<and> \<not> replied (ia w)
       \<longrightarrow> profileCommand e rest user queue None w =
            try_catch (rest (l_gameName l) (l_tagLine l) (effectiveRegion e (Some l))
                         (effectiveShard e (Some l)) queue (w\<lparr>ia := (ia w)\<lparr>deferred := True\<rparr>\<rparr>))
              (\<lambda>err. editReply (Failed err)))
   \<and> (rid \<noteq> [] \<and> parseRiotId rid = Inr (g, tg) \<and> \<not> deferred (ia w) \<and> \<not> replied (ia w)
       \<longrightarrow> profileCommand e rest user queue (Some rid) w =
            try_catch (rest (JStr g) (JStr tg)
                         (effectiveRegion e (userLink (links w) (default_arg user (user_id (ia w)))))
                         (effectiveShard e (userLink (links w) (default_arg user (user_id (ia w)))))
                         queue (w\<lparr>ia := (ia w)\<lparr>deferred := True\<rparr>\<rparr>))
              (\<lambda>err. editReply (Failed err)))
   \<and> (userLink (links w) (default_arg user (user_id (ia w))) = Some l
        \<and> \<not> deferred (ia w) \<and> \<not> replied (ia w)
       \<longrightarrow> lastmatchCommand e rest user w =
            try_catch (rest (l_gameName l) (l_tagLine l) (effectiveRegion e (Some l))
                         (effectiveShard e (Some l)) None (w\<lparr>ia := (ia w)\<lparr>deferred := True\<rparr>\<rparr>))
              (\<lambda>err. editReply (Failed err)))
   \<and> (userLink (links w) (default_arg user (user_id (ia w))) = Some l
        \<and> \<not> deferred (ia w) \<and> \<not> replied (ia w)
        \<and> getFilter (w\<lparr>ia := (ia w)\<lparr>deferred := True\<rparr>\<rparr>) = (Inr (Some f), w')
       \<longrightarrow> agentStatsCommand e getFilter rest' user queue w =
            try_catch (rest' f (l_gameName l) (l_tagLine l) (effectiveRegion e (Some l))
                         (effectiveShard e (Some l)) queue w')
              (\<lambda>err. editReply (Failed err)))
   \<and> (userLink (links w) (default_arg user (user_id (ia w))) = Some l
        \<and> \<not> deferred (ia w) \<and> \<not> replied (ia w)
        \<and> getFilter (w\<lparr>ia := (ia w)\<lparr>deferred := True\<rparr>\<rparr>) = (Inr (Some f), w')
       \<longrightarrow> mapStatsCommand e getFilter rest' user queue w =
            try_catch (rest' f (l_gameName l) (l_tagLine l) (effectiveRegion e (Some l))
                         (effectiveShard e (Some l)) queue w')
              (\<lambda>err. editReply (Failed err)))
   \<and> (toStr num gameName = Inr a \<and> toStr num tagLine = Inr b
        \<and> remote (accountUrl R a b) 0 = Responded ares
        \<and> ok ares \<and> bodyJson ares = Some account
        \<and> getProp ''puuid'' account = Inr puuid \<and> toStr num puuid = Inr p
        \<and> \<not> truthy (fst (cache_get t (''matchlist:'' @ S @ '':'' @ p) (cache w)))
        \<and> remote (matchlistUrl S p) 0 = Responded mres
        \<and> ok mres \<and> bodyJson mres = Some data \<and> optProp ''history'' data = Inr h
        \<and> sliceMap (if truthy h then h else JArr []) 0 count = Inr ids
       \<longrightarrow> lookups e num remote t t' count k gameName tagLine R S queue w =
            k account ids S queue
              (w\<lparr>events := events w @ [TakeToken, Fetch (accountUrl R a b),
                                        TakeToken, Fetch (matchlistUrl S p)],
                 cache := cache_set t' (''matchlist:'' @ S @ '':'' @ p) data (Some 30000)
                            (snd (cache_get t (''matchlist:'' @ S @ '':'' @ p) (cache w)))\<rparr>))
   \<and> set (events (snd (lookups e num remote t t' count stop gameName tagLine R S queue w)))
       \<subseteq> set (events w) \<union> range Sleep \<union> {TakeToken}
          \<union> {Fetch (accountUrl R a' b') | a' b'.
               toStr num gameName = Inr a' \<and> toStr num tagLine = Inr b'}
          \<union> {Fetch (matchlistUrl S q) | q. True}"
proof -
  have a: "(s \<noteq> [] \<longrightarrow> linkShard e (Some s) = s \<and> linkRegion e (Some s) = s)
   \<and> linkShard e None = VAL_SHARD e \<and> linkRegion e None = RIOT_REGION e
   \<and> (l_shard l = Some s \<and> s \<noteq> [] \<longrightarrow> effectiveShard e (Some l) = s)
   \<and> (l_region l = Some s \<and> s \<noteq> [] \<longrightarrow> effectiveRegion e (Some l) = s)
   \<and> (l_shard l = None \<longrightarrow> effectiveShard e (Some l) = VAL_SHARD e)
   \<and> (l_region l = None \<longrightarrow> effectiveRegion e (Some l) = RIOT_REGION e)
   \<and> effectiveShard e None = VAL_SHARD e \<and> effectiveRegion e None = RIOT_REGION e"
    by (simp add: linkShard_def linkRegion_def effectiveShard_def effectiveRegion_def js_or_def)
  have b: "linkShard e x \<noteq> [] \<and> linkRegion e x \<noteq> []
   \<and> effectiveShard e y \<noteq> [] \<and> effectiveRegion e y \<noteq> []"
    by (simp add: linkShard_def linkRegion_def effectiveShard_def effectiveRegion_def
        js_or_nonempty defaults_nonempty)
  have c: "links (listener (linkCommand e num remote now riotIdRaw x x' w)) = links w
       \<or> (Option.bind (links (listener (linkCommand e num remote now riotIdRaw x x' w))
                          (user_id (ia w))) l_shard = Some (linkShard e x)
           \<and> Option.bind (links (listener (linkCommand e num remote now riotIdRaw x x' w))
                          (user_id (ia w))) l_region = Some (linkRegion e x'))"
  proof (cases "deferred (ia w) \<or> replied (ia w)")
    case True
    then show ?thesis
      by (simp add: linkCommand_def andThen_def deferReply_def listener_def)
  next
    case False
    let ?w0 = "w\<lparr>ia := (ia w)\<lparr>deferred := True\<rparr>\<rparr>"
    obtain r w' where t: "link_try e num remote now riotIdRaw x x' ?w0 = (r, w')"
      by (cases "link_try e num remote now riotIdRaw x x' ?w0") auto
    have l: "links w' = links w
      \<or> (Option.bind (links w' (user_id (ia w))) l_shard = Some (linkShard e x)
          \<and> Option.bind (links w' (user_id (ia w))) l_region = Some (linkRegion e x'))"
      using link_try_links[OF t] by simp
    have "links (listener (linkCommand e num remote now riotIdRaw x x' w)) = links w'"
      using False t
      by (auto simp: linkCommand_def andThen_def deferReply_def listener_def try_catch_def
          editReply_def split: option.splits)
    then show ?thesis using l by simp
  qed
  show ?thesis
    apply (intro conjI)
    subgoal using a by blast
    subgoal using a by blast
    subgoal using a by blast
    subgoal using a by blast
    subgoal using a by blast
    subgoal using a by blast
    subgoal using a by blast
    subgoal using a by blast
    subgoal using a by blast
    subgoal using b by blast
    subgoal using b by blast
    subgoal using b by blast
    subgoal using b by blast
    subgoal by (rule c)
    subgoal by (intro impI) (elim conjE, rule link_ok, assumption+)
    subgoal by (intro impI) (elim conjE, rule me_linked, assumption+)
    subgoal by (intro impI) (elim conjE, rule profile_linked, assumption+)
    subgoal by (intro impI) (elim conjE, rule profile_inline, assumption+)
    subgoal by (intro impI) (elim conjE, rule lastmatch_linked, assumption+)
    subgoal by (intro impI) (elim conjE, rule agentStats_linked, assumption+)
    subgoal by (intro impI) (elim conjE, rule mapStats_linked, assumption+)
    subgoal by (intro impI) (elim conjE, rule lookups_ok, assumption+)
    subgoal by (rule lookups_events)
    done
qed

lemma after_setshard: "listener (setshardCommand ''na'' world0)
  = world0\<lparr>links := [''u1'' \<mapsto> emptyLink\<lparr>l_shard := Some ''na''\<rparr>],
          ia := \<lparr>user_id = ''u1'', deferred = False, replied = True, shown = Some (ShardSet ''na'')\<rparr>\<rparr>"
  by (simp add: setshardCommand_def listener_def reply_def world0_def fresh_def Let_def)

lemma acct: "getAccountByRiotId env0 accountOk ''Nick'' ''TAG'' (Some ''europe'') =
   (Inr (JObj [(''puuid'', JStr ''p1''), (''gameName'', JStr ''Nick''), (''tagLine'', JStr ''TAG'')]),
    [TakeToken, Fetch ''https://europe.api.riotgames.com/riot/account/v1/accounts/by-riot-id/Nick/TAG''])"
  by (simp add: getAccountByRiotId_def riotBases_def default_arg_def Let_def riotRequest.simps
      accountOk_def settle_def ok_def encodeURIComponent_def unreserved_def)

lemma route0: "linkShard env0 None = ''eu''" "linkRegion env0 None = ''europe''"
  by (simp_all add: linkShard_def linkRegion_def effectiveShard_def effectiveRegion_def
      VAL_SHARD_def RIOT_REGION_def env0_def js_or_def)

lemma parse0: "parseRiotId ''Nick#TAG'' = Inr (''Nick'', ''TAG'')"
  by (simp add: parseRiotId_def slice_def slice_index_def trim_def strip.simps white_space_def)

theorem C4_routing_witness:
  "linkShard env0 (Some ''na'') = ''na'' \<and> linkRegion env0 (Some ''na'') = ''na''
   \<and> effectiveShard env0 (Some (emptyLink\<lparr>l_shard := Some ''na''\<rparr>)) = ''na''
   \<and> effectiveRegion env0 (Some (emptyLink\<lparr>l_shard := Some ''na''\<rparr>)) = RIOT_REGION env0
   \<and> effectiveRegion env0 (Some (emptyLink\<lparr>l_region := Some ''na''\<rparr>)) = ''na''
   \<and> effectiveShard env0 (Some (emptyLink\<lparr>l_region := Some ''na''\<rparr>)) = VAL_SHARD env0
   \<and> linkCommand env0 num0 accountOk 5 ''Nick#TAG'' (Some ''na'') (Some ''americas'') world0
       = (None, world0\<lparr>links := [''u1'' \<mapsto> link0],
                  ia := \<lparr>user_id = ''u1'', deferred = True, replied = True,
                         shown = Some (Linked (JStr ''Nick'') (JStr ''TAG'') ''na'' ''americas'')\<rparr>,
                  events := [TakeToken, Fetch ''https://americas.api.riotgames.com/riot/account/v1/accounts/by-riot-id/Nick/TAG'']\<rparr>)
   \<and> meCommand env0 num0 linked0
       = (None, linked0\<lparr>ia := \<lparr>user_id = ''u1'', deferred = False, replied = True,
                         shown = Some (Me ''Nick'' ''TAG'' ''na'' ''americas'')\<rparr>\<rparr>)
   \<and> profileCommand env0 showRoute None None None linked0
       = (None, linked0\<lparr>ia := \<lparr>user_id = ''u1'', deferred = True, replied = True,
                         shown = Some (Other ''americas/na'')\<rparr>\<rparr>)
   \<and> profileCommand env0 showRoute None None (Some ''Nick#TAG'') world0
       = (None, world0\<lparr>ia := \<lparr>user_id = ''u1'', deferred = True, replied = True,
                         shown = Some (Other ''europe/eu'')\<rparr>\<rparr>)
   \<and> agentStatsCommand env0 noFilter (\<lambda>f. showRoute) None None linked0
       = (None, linked0\<lparr>ia := \<lparr>user_id = ''u1'', deferred = True, replied = True,
                         shown = Some (Other ''americas/na'')\<rparr>\<rparr>)
   \<and> mapStatsCommand env0 noFilter (\<lambda>f. showRoute) None None linked0
       = (None, linked0\<lparr>ia := \<lparr>user_id = ''u1'', deferred = True, replied = True,
                         shown = Some (Other ''americas/na'')\<rparr>\<rparr>)
   \<and> lastmatchCommand env0 (lookups env0 num0 accountOk 0 1 1 showShard) None linked0
       = (None, linked0\<lparr>ia := \<lparr>user_id = ''u1'', deferred = True, replied = True,
                         shown = Some (Other ''na'')\<rparr>,
                   cache := cache_set 1 ''matchlist:na:p1''
                              (JObj [(''puuid'', JStr ''p1''), (''gameName'', JStr ''Nick''),
                                     (''tagLine'', JStr ''TAG'')]) (Some 30000) Map.empty,
                   events := [TakeToken, Fetch ''https://americas.api.riotgames.com/riot/account/v1/accounts/by-riot-id/Nick/TAG'', TakeToken, Fetch ''https://na.api.riotgames.com/val/match/v1/matchlists/by-puuid/p1'']\<rparr>)
   \<and> Fetch ''https://europe.api.riotgames.com/riot/account/v1/accounts/by-riot-id/Nick/TAG''
       \<notin> set (events (snd (lookups env0 num0 always429 0 1 1 stop (JStr ''Nick'') (JStr ''TAG'')
                              ''americas'' ''na'' None linked0)))"
proof -
  have u: "accountUrl ''americas'' ''Nick'' ''TAG'' = ''https://americas.api.riotgames.com/riot/account/v1/accounts/by-riot-id/Nick/TAG''"
      "matchlistUrl ''na'' p = ''https://na.api.riotgames.com/val/match/v1/matchlists/by-puuid/'' @ p" for p
    by (simp_all add: accountUrl_def matchlistUrl_def encodeURIComponent_def unreserved_def)
  have r: "effectiveShard env0 (Some link0) = ''na''" "effectiveRegion env0 (Some link0) = ''americas''"
      "effectiveShard env0 None = ''eu''" "effectiveRegion env0 None = ''europe''"
      "linkShard env0 (Some ''na'') = ''na''" "linkRegion env0 (Some ''americas'') = ''americas''"
    by (simp_all add: effectiveShard_def effectiveRegion_def linkShard_def linkRegion_def
        link0_def js_or_def VAL_SHARD_def RIOT_REGION_def env0_def)
  have n: "l_gameName link0 = JStr ''Nick''" "l_tagLine link0 = JStr ''TAG''"
    by (simp_all add: link0_def)
  have h: "linkShard env0 (Some ''na'') = ''na'' \<and> linkRegion env0 (Some ''na'') = ''na''
   \<and> effectiveShard env0 (Some (emptyLink\<lparr>l_shard := Some ''na''\<rparr>)) = ''na''
   \<and> effectiveRegion env0 (Some (emptyLink\<lparr>l_shard := Some ''na''\<rparr>)) = RIOT_REGION env0
   \<and> effectiveRegion env0 (Some (emptyLink\<lparr>l_region := Some ''na''\<rparr>)) = ''na''
   \<and> effectiveShard env0 (Some (emptyLink\<lparr>l_region := Some ''na''\<rparr>)) = VAL_SHARD env0"
    using C4_routing [where s="''na''" and e=env0, THEN conjunct1]
      C4_routing [where s="''na''" and e=env0 and l="emptyLink\<lparr>l_shard := Some ''na''\<rparr>", THEN conjunct2, THEN conjunct2, THEN conjunct2, THEN conjunct1]
      C4_routing [where e=env0 and l="emptyLink\<lparr>l_shard := Some ''na''\<rparr>", THEN conjunct2, THEN conjunct2, THEN conjunct2, THEN conjunct2, THEN conjunct2, THEN conjunct2, THEN conjunct1]
      C4_routing [where s="''na''" and e=env0 and l="emptyLink\<lparr>l_region := Some ''na''\<rparr>", THEN conjunct2, THEN conjunct2, THEN conjunct2, THEN conjunct2, THEN conjunct1]
      C4_routing [where e=env0 and l="emptyLink\<lparr>l_region := Some ''na''\<rparr>", THEN conjunct2, THEN conjunct2, THEN conjunct2, THEN conjunct2, THEN conjunct2, THEN conjunct1]
    by (simp add: emptyLink_def)
  have w1: "linkCommand env0 num0 accountOk 5 ''Nick#TAG'' (Some ''na'') (Some ''americas'') world0
       = (None, world0\<lparr>links := [''u1'' \<mapsto> link0],
                  ia := \<lparr>user_id = ''u1'', deferred = True, replied = True,
                         shown = Some (Linked (JStr ''Nick'') (JStr ''TAG'') ''na'' ''americas'')\<rparr>,
                  events := [TakeToken, Fetch ''https://americas.api.riotgames.com/riot/account/v1/accounts/by-riot-id/Nick/TAG'']\<rparr>)"
    using C4_routing [where e=env0 and num=num0 and remote=accountOk and now=5
        and riotIdRaw="''Nick#TAG''" and a="''Nick''" and b="''TAG''"
        and x="Some ''na''" and x'="Some ''americas''" and w=world0 and g="''Nick''" and tg="''TAG''"
        and res="\<lparr>status = 200, retryAfter = None, bodyText = None,
                  bodyJson = Some (JObj [(''puuid'', JStr ''p1''), (''gameName'', JStr ''Nick''),
                                         (''tagLine'', JStr ''TAG'')])\<rparr>"
        and account="JObj [(''puuid'', JStr ''p1''), (''gameName'', JStr ''Nick''),
                           (''tagLine'', JStr ''TAG'')]"
        and gName="JStr ''Nick''" and tLine="JStr ''TAG''", THEN conjunct2, THEN conjunct2, THEN conjunct2, THEN conjunct2, THEN conjunct2, THEN conjunct2, THEN conjunct2, THEN conjunct2, THEN conjunct2, THEN conjunct2, THEN conjunct2, THEN conjunct2, THEN conjunct2, THEN conjunct2, THEN conjunct1]
    by (simp add: parse0 r u accountOk_def ok_def getProp_def world0_def fresh_def link0_def)
  have w2: "meCommand env0 num0 linked0
       = (None, linked0\<lparr>ia := \<lparr>user_id = ''u1'', deferred = False, replied = True,
                         shown = Some (Me ''Nick'' ''TAG'' ''na'' ''americas'')\<rparr>\<rparr>)"
    using C4_routing [where e=env0 and num=num0 and w=linked0 and l=link0 and a="''Nick''"
        and b="''TAG''", THEN conjunct2, THEN conjunct2, THEN conjunct2, THEN conjunct2, THEN conjunct2, THEN conjunct2, THEN conjunct2, THEN conjunct2, THEN conjunct2, THEN conjunct2, THEN conjunct2, THEN conjunct2, THEN conjunct2, THEN conjunct2, THEN conjunct2, THEN conjunct1]
    by (simp add: r n userLink_def linked0_def world0_def fresh_def)
  have w3: "profileCommand env0 showRoute None None None linked0
       = (None, linked0\<lparr>ia := \<lparr>user_id = ''u1'', deferred = True, replied = True,
                         shown = Some (Other ''americas/na'')\<rparr>\<rparr>)"
    using C4_routing [where e=env0 and w=linked0 and l=link0 and user=None and queue=None
        and rest=showRoute, THEN conjunct2, THEN conjunct2, THEN conjunct2, THEN conjunct2, THEN conjunct2, THEN conjunct2, THEN conjunct2, THEN conjunct2, THEN conjunct2, THEN conjunct2, THEN conjunct2, THEN conjunct2, THEN conjunct2, THEN conjunct2, THEN conjunct2, THEN conjunct2, THEN conjunct1]
    by (simp add: r n userLink_def linked0_def world0_def fresh_def default_arg_def
        showRoute_def try_catch_def editReply_def)
  have w4: "profileCommand env0 showRoute None None (Some ''Nick#TAG'') world0
       = (None, world0\<lparr>ia := \<lparr>user_id = ''u1'', deferred = True, replied = True,
                         shown = Some (Other ''europe/eu'')\<rparr>\<rparr>)"
    using C4_routing [where e=env0 and w=world0 and rid="''Nick#TAG''" and g="''Nick''"
        and tg="''TAG''" and user=None and queue=None and rest=showRoute, THEN conjunct2, THEN conjunct2, THEN conjunct2, THEN conjunct2, THEN conjunct2, THEN conjunct2, THEN conjunct2, THEN conjunct2, THEN conjunct2, THEN conjunct2, THEN conjunct2, THEN conjunct2, THEN conjunct2, THEN conjunct2, THEN conjunct2, THEN conjunct2, THEN conjunct2, THEN conjunct1]
    by (simp add: r parse0 userLink_def world0_def fresh_def default_arg_def
        showRoute_def try_catch_def editReply_def)
  have w5: "agentStatsCommand env0 noFilter (\<lambda>f. showRoute) None None linked0
       = (None, linked0\<lparr>ia := \<lparr>user_id = ''u1'', deferred = True, replied = True,
                         shown = Some (Other ''americas/na'')\<rparr>\<rparr>)"
    using C4_routing [where e=env0 and w=linked0 and l=link0 and user=None and queue=None
        and getFilter=noFilter and rest'="\<lambda>f. showRoute" and f="()"
        and w'="linked0\<lparr>ia := (ia linked0)\<lparr>deferred := True\<rparr>\<rparr>", THEN conjunct2, THEN conjunct2, THEN conjunct2, THEN conjunct2, THEN conjunct2, THEN conjunct2, THEN conjunct2, THEN conjunct2, THEN conjunct2, THEN conjunct2, THEN conjunct2, THEN conjunct2, THEN conjunct2, THEN conjunct2, THEN conjunct2, THEN conjunct2, THEN conjunct2, THEN conjunct2, THEN conjunct2, THEN conjunct1]
    by (simp add: r n userLink_def linked0_def world0_def fresh_def default_arg_def noFilter_def
        showRoute_def try_catch_def editReply_def)
  have w6: "mapStatsCommand env0 noFilter (\<lambda>f. showRoute) None None linked0
       = (None, linked0\<lparr>ia := \<lparr>user_id = ''u1'', deferred = True, replied = True,
                         shown = Some (Other ''americas/na'')\<rparr>\<rparr>)"
    using C4_routing [where e=env0 and w=linked0 and l=link0 and user=None and queue=None
        and getFilter=noFilter and rest'="\<lambda>f. showRoute" and f="()"
        and w'="linked0\<lparr>ia := (ia linked0)\<lparr>deferred := True\<rparr>\<rparr>", THEN conjunct2, THEN conjunct2, THEN conjunct2, THEN conjunct2, THEN conjunct2, THEN conjunct2, THEN conjunct2, THEN conjunct2, THEN conjunct2, THEN conjunct2, THEN conjunct2, THEN conjunct2, THEN conjunct2, THEN conjunct2, THEN conjunct2, THEN conjunct2, THEN conjunct2, THEN conjunct2, THEN conjunct2, THEN conjunct2, THEN conjunct1]
    by (simp add: r n userLink_def linked0_def world0_def fresh_def default_arg_def noFilter_def
        showRoute_def try_catch_def editReply_def)
  have k: "lookups env0 num0 accountOk 0 1 1 showShard (JStr ''Nick'') (JStr ''TAG'') ''americas''
             ''na'' None (linked0\<lparr>ia := (ia linked0)\<lparr>deferred := True\<rparr>\<rparr>)
       = showShard (JObj [(''puuid'', JStr ''p1''), (''gameName'', JStr ''Nick''),
                          (''tagLine'', JStr ''TAG'')]) [] ''na'' None
           (linked0\<lparr>ia := (ia linked0)\<lparr>deferred := True\<rparr>,
              events := [TakeToken, Fetch ''https://americas.api.riotgames.com/riot/account/v1/accounts/by-riot-id/Nick/TAG'', TakeToken, Fetch ''https://na.api.riotgames.com/val/match/v1/matchlists/by-puuid/p1''],
              cache := cache_set 1 ''matchlist:na:p1''
                         (JObj [(''puuid'', JStr ''p1''), (''gameName'', JStr ''Nick''),
                                (''tagLine'', JStr ''TAG'')]) (Some 30000) Map.empty\<rparr>)"
    using C4_routing [where e=env0 and num=num0 and remote=accountOk and t=0 and t'=1
        and count=1 and k=showShard and gameName="JStr ''Nick''" and tagLine="JStr ''TAG''"
        and R="''americas''" and S="''na''" and queue=None
        and w="linked0\<lparr>ia := (ia linked0)\<lparr>deferred := True\<rparr>\<rparr>"
        and ares="\<lparr>status = 200, retryAfter = None, bodyText = None,
                  bodyJson = Some (JObj [(''puuid'', JStr ''p1''), (''gameName'', JStr ''Nick''),
                                         (''tagLine'', JStr ''TAG'')])\<rparr>"
        and mres="\<lparr>status = 200, retryAfter = None, bodyText = None,
                  bodyJson = Some (JObj [(''puuid'', JStr ''p1''), (''gameName'', JStr ''Nick''),
                                         (''tagLine'', JStr ''TAG'')])\<rparr>"
        and account="JObj [(''puuid'', JStr ''p1''), (''gameName'', JStr ''Nick''),
                           (''tagLine'', JStr ''TAG'')]"
        and data="JObj [(''puuid'', JStr ''p1''), (''gameName'', JStr ''Nick''),
                        (''tagLine'', JStr ''TAG'')]"
        and puuid="JStr ''p1''" and h=JUndefined and ids="[]" and a="''Nick''" and b="''TAG''"
        and p="''p1''", THEN conjunct2, THEN conjunct2, THEN conjunct2, THEN conjunct2, THEN conjunct2, THEN conjunct2, THEN conjunct2, THEN conjunct2, THEN conjunct2, THEN conjunct2, THEN conjunct2, THEN conjunct2, THEN conjunct2, THEN conjunct2, THEN conjunct2, THEN conjunct2, THEN conjunct2, THEN conjunct2, THEN conjunct2, THEN conjunct2, THEN conjunct2, THEN conjunct1]
    by (simp add: u accountOk_def ok_def getProp_def optProp_def truthy_def cache_get_def
        sliceMap_def slice_def slice_index_def linked0_def world0_def fresh_def)
  have w7: "lastmatchCommand env0 (lookups env0 num0 accountOk 0 1 1 showShard) None linked0
       = (None, linked0\<lparr>ia := \<lparr>user_id = ''u1'', deferred = True, replied = True,
                         shown = Some (Other ''na'')\<rparr>,
                   cache := cache_set 1 ''matchlist:na:p1''
                              (JObj [(''puuid'', JStr ''p1''), (''gameName'', JStr ''Nick''),
                                     (''tagLine'', JStr ''TAG'')]) (Some 30000) Map.empty,
                   events := [TakeToken, Fetch ''https://americas.api.riotgames.com/riot/account/v1/accounts/by-riot-id/Nick/TAG'', TakeToken, Fetch ''https://na.api.riotgames.com/val/match/v1/matchlists/by-puuid/p1'']\<rparr>)"
    using C4_routing [where e=env0 and w=linked0 and l=link0 and user=None
        and rest="lookups env0 num0 accountOk 0 1 1 showShard", THEN conjunct2, THEN conjunct2, THEN conjunct2, THEN conjunct2, THEN conjunct2, THEN conjunct2, THEN conjunct2, THEN conjunct2, THEN conjunct2, THEN conjunct2, THEN conjunct2, THEN conjunct2, THEN conjunct2, THEN conjunct2, THEN conjunct2, THEN conjunct2, THEN conjunct2, THEN conjunct2, THEN conjunct1]
    unfolding r
    by (simp add: k n userLink_def default_arg_def)
      (simp add: linked0_def world0_def fresh_def showShard_def try_catch_def editReply_def)
  have w8: "Fetch ''https://europe.api.riotgames.com/riot/account/v1/accounts/by-riot-id/Nick/TAG''
       \<notin> set (events (snd (lookups env0 num0 always429 0 1 1 stop (JStr ''Nick'') (JStr ''TAG'')
                              ''americas'' ''na'' None linked0)))"
    using C4_routing [where e=env0 and num=num0 and remote=always429 and t=0 and t'=1
        and count=1 and gameName="JStr ''Nick''" and tagLine="JStr ''TAG''"
        and R="''americas''" and S="''na''" and queue=None and w=linked0, THEN conjunct2, THEN conjunct2, THEN conjunct2, THEN conjunct2, THEN conjunct2, THEN conjunct2, THEN conjunct2, THEN conjunct2, THEN conjunct2, THEN conjunct2, THEN conjunct2, THEN conjunct2, THEN conjunct2, THEN conjunct2, THEN conjunct2, THEN conjunct2, THEN conjunct2, THEN conjunct2, THEN conjunct2, THEN conjunct2, THEN conjunct2, THEN conjunct2]
    by (auto simp: u linked0_def world0_def)
  show ?thesis using h w1 w2 w3 w4 w5 w6 w7 w8 by (intro conjI) simp_all
qed

text \<open>
  The claim as the specification words it fails at the link command: the user \<open>u1\<close>
  sets the shard \<open>na\<close> with \<^verbatim>\<open>/setshard\<close>, so that the stored link has it, and then links
  \<open>Nick#TAG\<close> without an override; the link stored now has the process default \<open>eu\<close>.
\<close>

theorem C4_counterexample:
  "Option.bind (links (listener (setshardCommand ''na'' world0)) ''u1'') l_shard = Some ''na''
   \<and> Option.bind
        (links (listener (linkCommand env0 num0 accountOk 5 ''Nick#TAG'' None None
                  ((listener (setshardCommand ''na'' world0))\<lparr>ia := fresh ''u1''\<rparr>))) ''u1'')
        l_shard = Some ''eu''"
  unfolding after_setshard
  by (simp add: linkCommand_def link_try_def andThen_def try_catch_def listener_def
      deferReply_def editReply_def fresh_def emptyLink_def acct parse0 route0 getProp_def
      trackerUrl_def Let_def)

section \<open>Properties of the profile handler\<close>

text \<open>
  C8. Nobody is linked, and \<open>u1\<close> asks for the own profile without an inline identifier.
  The profile handler has deferred the reply when \<open>ensureLink\<close> calls \<^verbatim>\<open>reply\<close>, so that
  call rejects, the handler's own \<^verbatim>\<open>catch\<close> takes the error, and what the user sees is
  the failure message with \<^verbatim>\<open>InteractionAlreadyReplied\<close>, not the nudge. The remote API
  is not called (no event) and nothing reaches the listener's \<^verbatim>\<open>catch\<close> (the console
  stays empty), whatever the rest of the handler would do. The last-match handler calls
  \<open>ensureLink\<close> before it defers, and there the user sees the nudge for oneself.
\<close>

theorem C8_profile_not_linked:
  "listener (profileCommand e rest None queue None world0)
     = world0\<lparr>ia := \<lparr>user_id = ''u1'', deferred = True, replied = True,
                      shown = Some (Failed InteractionAlreadyReplied)\<rparr>\<rparr>
   \<and> listener (lastmatchCommand e rest None world0)
     = world0\<lparr>ia := \<lparr>user_id = ''u1'', deferred = False, replied = True,
                      shown = Some NotLinkedSelf\<rparr>\<rparr>"
  by (simp add: profileCommand_def lastmatchCommand_def listener_def andThen_def try_catch_def
      deferReply_def reply_def editReply_def ensureLink_def userLink_def world0_def fresh_def
      default_arg_def js_or_def)

end
